theory Spec2Isabelle
  imports Complex_Main
begin

section \<open>The JavaScript values the timeline visual computes with\<close>

text \<open>
  The visual (\<^verbatim>\<open>src/visual.ts\<close>, class \<^verbatim>\<open>Visual\<close>) is TypeScript running on the
  ECMAScript \<^verbatim>\<open>Date\<close> object. The parts of the platform that the code calls are
  modelled after ECMA-262: a number that may be \<^verbatim>\<open>NaN\<close> or infinite, a date as its
  time value, and the calendar functions \<^verbatim>\<open>DayFromYear\<close>, \<^verbatim>\<open>YearFromTime\<close>,
  \<^verbatim>\<open>MonthFromTime\<close>, \<^verbatim>\<open>MakeDay\<close> and \<^verbatim>\<open>TimeClip\<close>.
  Two conventions hold throughout:
  \<^item> the local time zone is UTC, so that \<^verbatim>\<open>getFullYear\<close> reads the time value directly;
  \<^item> time values and years are integers, which doubles represent exactly in the range of
    \<^verbatim>\<open>Date\<close>; the divisions of the code (in \<^verbatim>\<open>diff_years\<close> and in the choice of the
    lane) are over the rationals.
\<close>

datatype error = TypeError

text \<open>A number: \<^verbatim>\<open>NaN\<close>, an infinity, or an integer.\<close>

datatype jsnum = NaN | NegInf | Fin int | PosInf

text \<open>\<^verbatim>\<open>a <= b\<close> on numbers that are an integer or \<^verbatim>\<open>NaN\<close> (\<open>None\<close>): false when either
  side is \<^verbatim>\<open>NaN\<close>.\<close>

definition nan_le :: "int option \<Rightarrow> int option \<Rightarrow> bool" where
  "nan_le a b = (case a of None \<Rightarrow> False
                 | Some x \<Rightarrow> (case b of None \<Rightarrow> False | Some y \<Rightarrow> x \<le> y))"

text \<open>\<^verbatim>\<open>a === b\<close> on such numbers: \<^verbatim>\<open>NaN\<close> equals nothing.\<close>

definition nan_eq :: "int option \<Rightarrow> int option \<Rightarrow> bool" where
  "nan_eq a b = (case a of None \<Rightarrow> False
                 | Some x \<Rightarrow> (case b of None \<Rightarrow> False | Some y \<Rightarrow> x = y))"

text \<open>\<^verbatim>\<open>a + k\<close> for an integer \<open>k\<close>.\<close>

definition nan_plus :: "int option \<Rightarrow> int \<Rightarrow> int option" where
  "nan_plus a k = map_option (\<lambda>x. x + k) a"

text \<open>\<^verbatim>\<open>Math.min\<close> and \<^verbatim>\<open>Math.max\<close> of two numbers, then of an argument list
  (\<^verbatim>\<open>Math.min.apply(null, xs)\<close>): \<^verbatim>\<open>NaN\<close> wins, no argument gives the infinity.\<close>

fun min2 :: "jsnum \<Rightarrow> jsnum \<Rightarrow> jsnum" where
  "min2 NaN _ = NaN"
| "min2 _ NaN = NaN"
| "min2 NegInf _ = NegInf"
| "min2 _ NegInf = NegInf"
| "min2 PosInf b = b"
| "min2 a PosInf = a"
| "min2 (Fin a) (Fin b) = Fin (min a b)"

fun max2 :: "jsnum \<Rightarrow> jsnum \<Rightarrow> jsnum" where
  "max2 NaN _ = NaN"
| "max2 _ NaN = NaN"
| "max2 PosInf _ = PosInf"
| "max2 _ PosInf = PosInf"
| "max2 NegInf b = b"
| "max2 a NegInf = a"
| "max2 (Fin a) (Fin b) = Fin (max a b)"

definition Math_min :: "jsnum list \<Rightarrow> jsnum" where
  "Math_min xs = foldl min2 PosInf xs"

definition Math_max :: "jsnum list \<Rightarrow> jsnum" where
  "Math_max xs = foldl max2 NegInf xs"

text \<open>\<^verbatim>\<open>Math.round\<close> (halves go up) on a rational.\<close>

definition Math_round :: "rat \<Rightarrow> int" where
  "Math_round x = \<lfloor>x + 1 / 2\<rfloor>"

text \<open>\<^verbatim>\<open>a % b\<close> on rationals with \<open>b \<noteq> 0\<close>: the quotient is truncated towards zero.\<close>

definition js_rem :: "rat \<Rightarrow> rat \<Rightarrow> rat" where
  "js_rem a b = a - b * of_int (if a / b < 0 then \<lceil>a / b\<rceil> else \<lfloor>a / b\<rfloor>)"

subsection \<open>Dates\<close>

text \<open>A \<^verbatim>\<open>Date\<close> object is its time value: \<^verbatim>\<open>NaN\<close> (an Invalid Date) or the
  milliseconds since the epoch.\<close>

datatype jsdate = Invalid | Valid int

definition msPerDay :: int where
  "msPerDay = 86400000"

definition Day :: "int \<Rightarrow> int" where
  "Day t = t div msPerDay"

definition DayFromYear :: "int \<Rightarrow> int" where
  "DayFromYear y = 365 * (y - 1970) + (y - 1969) div 4 - (y - 1901) div 100 + (y - 1601) div 400"

definition DaysInYear :: "int \<Rightarrow> int" where
  "DaysInYear y = (if y mod 4 \<noteq> 0 then 365 else if y mod 100 \<noteq> 0 then 366
                   else if y mod 400 \<noteq> 0 then 365 else 366)"

definition InLeapYear :: "int \<Rightarrow> bool" where
  "InLeapYear y = (DaysInYear y = 366)"

lemma div_step:
  fixes x c :: int
  assumes "0 < c"
  shows "(x + 1) div c = x div c + (if (x + 1) mod c = 0 then 1 else 0)"
proof (cases "x mod c = c - 1")
  case True
  have "x = c * (x div c) + x mod c" by simp
  then have "x = c * (x div c) + (c - 1)" using True by simp
  then have e: "x + 1 = c * (x div c + 1) + 0" by (simp add: algebra_simps)
  have "(x + 1) div c = x div c + 1"
    by (rule int_div_pos_eq [OF e]) (use assms in auto)
  moreover have "(x + 1) mod c = 0"
    by (rule int_mod_pos_eq [OF e]) (use assms in auto)
  ultimately show ?thesis by simp
next
  case False
  have r: "0 \<le> x mod c" "x mod c < c" using assms by simp_all
  have e: "x + 1 = c * (x div c) + (x mod c + 1)" by simp
  have "(x + 1) div c = x div c"
    by (rule int_div_pos_eq [OF e]) (use r False in auto)
  moreover have "(x + 1) mod c = x mod c + 1"
    by (rule int_mod_pos_eq [OF e]) (use r False in auto)
  ultimately show ?thesis using r by simp
qed

lemma mod_minus_multiple: "(y - k * c) mod c = y mod (c::int)"
  by (metis mod_diff_right_eq mod_mult_self2_is_0 diff_zero)

lemma DayFromYear_Suc: "DayFromYear (y + 1) = DayFromYear y + DaysInYear y"
proof -
  have a: "(y + 1 - 1969) div 4 = (y - 1969) div 4 + (if y mod 4 = 0 then 1 else 0)"
    using div_step [of 4 "y - 1969"] mod_minus_multiple [of y 492 4] by (simp add: algebra_simps)
  have b: "(y + 1 - 1901) div 100 = (y - 1901) div 100 + (if y mod 100 = 0 then 1 else 0)"
    using div_step [of 100 "y - 1901"] mod_minus_multiple [of y 19 100] by (simp add: algebra_simps)
  have c: "(y + 1 - 1601) div 400 = (y - 1601) div 400 + (if y mod 400 = 0 then 1 else 0)"
    using div_step [of 400 "y - 1601"] mod_minus_multiple [of y 4 400] by (simp add: algebra_simps)
  have d: "y mod 400 = 0 \<Longrightarrow> y mod 100 = 0"
    by (metis mod_mod_cancel dvd_def mod_0 numeral_times_numeral semiring_norm(12,13,14,11))
  have e: "y mod 100 = 0 \<Longrightarrow> y mod 4 = 0"
    by presburger
  show ?thesis
    unfolding DayFromYear_def DaysInYear_def a b c using d e by auto
qed

lemma DayFromYear_less: "DayFromYear y < DayFromYear (y + 1)"
  by (simp add: DayFromYear_Suc DaysInYear_def)

text \<open>\<^verbatim>\<open>YearFromTime(t)\<close> is the largest year \<open>y\<close> with \<open>DayFromYear y \<le> Day t\<close>. It is
  found from the estimate \<open>1970 + Day t div 365\<close>, first downwards to a year that starts on
  or before the day, then upwards to the last such year.\<close>

function year_down :: "int \<Rightarrow> int \<Rightarrow> int" where
  "year_down d y = (if d < DayFromYear y then year_down d (y - 1) else y)"
  by pat_completeness auto
termination
proof (relation "measure (\<lambda>(d, y). nat (DayFromYear y - d))")
  show "wf (measure (\<lambda>(d, y). nat (DayFromYear y - d)))" by simp
next
  fix d y :: int
  assume "d < DayFromYear y"
  moreover have "DayFromYear (y - 1) < DayFromYear y"
    using DayFromYear_less [of "y - 1"] by simp
  ultimately show "((d, y - 1), (d, y)) \<in> measure (\<lambda>(d, y). nat (DayFromYear y - d))"
    by simp
qed

function year_up :: "int \<Rightarrow> int \<Rightarrow> int" where
  "year_up d y = (if DayFromYear (y + 1) \<le> d then year_up d (y + 1) else y)"
  by pat_completeness auto
termination
proof (relation "measure (\<lambda>(d, y). nat (d + 1 - DayFromYear (y + 1)))")
  show "wf (measure (\<lambda>(d, y). nat (d + 1 - DayFromYear (y + 1))))" by simp
next
  fix d y :: int
  assume "DayFromYear (y + 1) \<le> d"
  moreover have "DayFromYear (y + 1) < DayFromYear (y + 1 + 1)"
    by (rule DayFromYear_less)
  ultimately show "((d, y + 1), (d, y)) \<in> measure (\<lambda>(d, y). nat (d + 1 - DayFromYear (y + 1)))"
    by simp
qed

declare year_down.simps [simp del] year_up.simps [simp del]

definition YearFromDay :: "int \<Rightarrow> int" where
  "YearFromDay d = year_up d (year_down d (1970 + d div 365))"

definition YearFromTime :: "int \<Rightarrow> int" where
  "YearFromTime t = YearFromDay (Day t)"

definition DayWithinYear :: "int \<Rightarrow> int" where
  "DayWithinYear t = Day t - DayFromYear (YearFromTime t)"

text \<open>The day of the year on which month \<open>m\<close> (0 to 11) starts.\<close>

definition month_start :: "int \<Rightarrow> bool \<Rightarrow> int" where
  "month_start m leap =
     [0, 31, 59, 90, 120, 151, 181, 212, 243, 273, 304, 334] ! nat m
       + (if leap \<and> 2 \<le> m then 1 else 0)"

definition MonthFromTime :: "int \<Rightarrow> int" where
  "MonthFromTime t =
     (let d = DayWithinYear t; leap = InLeapYear (YearFromTime t) in
      if d < month_start 1 leap then 0 else if d < month_start 2 leap then 1
      else if d < month_start 3 leap then 2 else if d < month_start 4 leap then 3
      else if d < month_start 5 leap then 4 else if d < month_start 6 leap then 5
      else if d < month_start 7 leap then 6 else if d < month_start 8 leap then 7
      else if d < month_start 9 leap then 8 else if d < month_start 10 leap then 9
      else if d < month_start 11 leap then 10 else 11)"

text \<open>\<^verbatim>\<open>MakeDay(year, month, date)\<close>: months outside 0 to 11 carry into the year.\<close>

definition MakeDay :: "int \<Rightarrow> int \<Rightarrow> int \<Rightarrow> int" where
  "MakeDay y m dt =
     (let ym = y + m div 12; mn = m mod 12 in
      DayFromYear ym + month_start mn (InLeapYear ym) + dt - 1)"

definition TimeClip :: "jsnum \<Rightarrow> jsdate" where
  "TimeClip x = (case x of Fin t \<Rightarrow> if \<bar>t\<bar> \<le> 8640000000000000 then Valid t else Invalid
                 | _ \<Rightarrow> Invalid)"

text \<open>\<^verbatim>\<open>new Date(value)\<close> for a number.\<close>

definition new_Date_value :: "jsnum \<Rightarrow> jsdate" where
  "new_Date_value x = TimeClip x"

text \<open>\<^verbatim>\<open>new Date(year, month, date)\<close> at midnight. A \<^verbatim>\<open>NaN\<close> argument gives an Invalid
  Date, and a year from 0 to 99 stands for 1900 + year, as the constructor specifies.\<close>

definition new_Date_ymd :: "int option \<Rightarrow> int option \<Rightarrow> int \<Rightarrow> jsdate" where
  "new_Date_ymd year month dt =
     (case year of None \<Rightarrow> Invalid
      | Some y \<Rightarrow> (case month of None \<Rightarrow> Invalid
          | Some m \<Rightarrow>
              (let yr = (if 0 \<le> y \<and> y \<le> 99 then 1900 + y else y)
               in TimeClip (Fin (MakeDay yr m dt * msPerDay)))))"

definition getTime :: "jsdate \<Rightarrow> jsnum" where
  "getTime d = (case d of Invalid \<Rightarrow> NaN | Valid t \<Rightarrow> Fin t)"

definition getFullYear :: "jsdate \<Rightarrow> int option" where
  "getFullYear d = (case d of Invalid \<Rightarrow> None | Valid t \<Rightarrow> Some (YearFromTime t))"

definition getMonth :: "jsdate \<Rightarrow> int option" where
  "getMonth d = (case d of Invalid \<Rightarrow> None | Valid t \<Rightarrow> Some (MonthFromTime t))"

section \<open>The row extractor: \<^verbatim>\<open>Visual.CONVERTER\<close>\<close>

text \<open>A table cell as the host hands it over: a primitive value, \<^verbatim>\<open>null\<close> for a blank,
  and \<^verbatim>\<open>undefined\<close> for what \<^verbatim>\<open>row[-1]\<close> reads when a role has no column. Numbers in
  cells are integers here.\<close>

datatype cell = CUndefined | CNull | CBool bool | CNum int | CStr string

fun truthy :: "cell \<Rightarrow> bool" where
  "truthy CUndefined = False"
| "truthy CNull = False"
| "truthy (CBool b) = b"
| "truthy (CNum n) = (n \<noteq> 0)"
| "truthy (CStr s) = (s \<noteq> [])"

fun digits :: "nat \<Rightarrow> string" where
  "digits n = (if n < 10 then [char_of (48 + n)]
               else digits (n div 10) @ [char_of (48 + n mod 10)])"

declare digits.simps [simp del]

text \<open>\<^verbatim>\<open>c.toString()\<close>: a property read on \<^verbatim>\<open>null\<close> or \<^verbatim>\<open>undefined\<close> throws.\<close>

fun toString :: "cell \<Rightarrow> error + string" where
  "toString CUndefined = Inl TypeError"
| "toString CNull = Inl TypeError"
| "toString (CBool b) = Inr (if b then ''true'' else ''false'')"
| "toString (CNum n) = Inr (if n < 0 then CHR ''-'' # digits (nat (- n)) else digits (nat n))"
| "toString (CStr s) = Inr s"

text \<open>Sequencing of computations that may throw.\<close>

definition ebind :: "error + 'a \<Rightarrow> ('a \<Rightarrow> error + 'b) \<Rightarrow> error + 'b" where
  "ebind m f = (case m of Inl e \<Rightarrow> Inl e | Inr x \<Rightarrow> f x)"

text \<open>A traversal that hands each element \<open>d\<close> and its index \<open>i\<close> to a body that may
  throw: the \<^verbatim>\<open>for\<close> loop over the rows, and later the callbacks that a selection runs for
  each datum.\<close>

fun each_indexed :: "('a \<Rightarrow> nat \<Rightarrow> error + 'b) \<Rightarrow> 'a list \<Rightarrow> nat \<Rightarrow> error + 'b list" where
  "each_indexed f [] i = Inr []"
| "each_indexed f (d # ds) i =
     ebind (f d i) (\<lambda>r. ebind (each_indexed f ds (i + 1)) (\<lambda>rs. Inr (r # rs)))"

text \<open>A column carries the own property names of its \<^verbatim>\<open>roles\<close> object.\<close>

record column =
  roles :: "string list"

definition hasOwnProperty :: "column \<Rightarrow> string \<Rightarrow> bool" where
  "hasOwnProperty c r = (r \<in> set (roles c))"

record indices =
  companyIndex :: int
  companylinkIndex :: int
  typeIndex :: int
  descIndex :: int
  dateIndex :: int
  headerImageIndex :: int
  footerImageIndex :: int

definition no_indices :: indices where
  "no_indices = \<lparr>companyIndex = -1, companylinkIndex = -1, typeIndex = -1, descIndex = -1,
     dateIndex = -1, headerImageIndex = -1, footerImageIndex = -1\<rparr>"

text \<open>The body of the loop over the columns, for column \<open>c\<close> at index \<open>ti\<close>.\<close>

definition bind_column :: "column \<Rightarrow> int \<Rightarrow> indices \<Rightarrow> indices" where
  "bind_column c ti ix =
     (if hasOwnProperty c ''Company'' then ix\<lparr>companyIndex := ti\<rparr>
      else if hasOwnProperty c ''Type'' then ix\<lparr>typeIndex := ti\<rparr>
      else if hasOwnProperty c ''Description'' then ix\<lparr>descIndex := ti\<rparr>
      else if hasOwnProperty c ''CompanyLink'' then ix\<lparr>companylinkIndex := ti\<rparr>
      else if hasOwnProperty c ''Date'' then ix\<lparr>dateIndex := ti\<rparr>
      else if hasOwnProperty c ''HeaderImage'' then ix\<lparr>headerImageIndex := ti\<rparr>
      else if hasOwnProperty c ''FooterImage'' then ix\<lparr>footerImageIndex := ti\<rparr>
      else ix)"

fun column_loop :: "column list \<Rightarrow> int \<Rightarrow> indices \<Rightarrow> indices" where
  "column_loop [] ti ix = ix"
| "column_loop (c # cs) ti ix = column_loop cs (ti + 1) (bind_column c ti ix)"

definition column_indices :: "column list \<Rightarrow> indices" where
  "column_indices cols = column_loop cols 0 no_indices"

text \<open>\<^verbatim>\<open>row[k]\<close>: \<^verbatim>\<open>undefined\<close> outside the row, in particular at \<open>-1\<close>.\<close>

definition row_at :: "cell list \<Rightarrow> int \<Rightarrow> cell" where
  "row_at row k = (if 0 \<le> k \<and> k < int (length row) then row ! nat k else CUndefined)"

record TimelineData =
  Company :: string
  Type :: string
  Description :: "string option"
  CompanyLink :: "string option"
  Date :: "jsdate option"
  HeaderImage :: "string option"
  FooterImage :: "string option"
  selectionId :: nat

text \<open>\<^verbatim>\<open>c ? c.toString() : null\<close>\<close>

definition guarded :: "cell \<Rightarrow> error + string option" where
  "guarded c = (if truthy c then ebind (toString c) (\<lambda>s. Inr (Some s)) else Inr None)"

text \<open>The object literal \<^verbatim>\<open>dp\<close> built for row \<open>i\<close>. \<^verbatim>\<open>Date.parse\<close> is the platform's
  parser, a parameter: it returns a time value or \<^verbatim>\<open>NaN\<close>. The selection id is the handle the
  host builds for row \<open>i\<close>, kept as that index.\<close>

definition make_dp :: "(string \<Rightarrow> jsnum) \<Rightarrow> indices \<Rightarrow> cell list \<Rightarrow> nat \<Rightarrow> error + TimelineData" where
  "make_dp Date_parse ix row i =
     ebind (toString (row_at row (companyIndex ix))) (\<lambda>company.
     ebind (guarded (row_at row (typeIndex ix))) (\<lambda>ty.
     ebind (guarded (row_at row (descIndex ix))) (\<lambda>desc.
     ebind (guarded (row_at row (companylinkIndex ix))) (\<lambda>link.
     ebind (guarded (row_at row (dateIndex ix))) (\<lambda>dstr.
     ebind (guarded (row_at row (headerImageIndex ix))) (\<lambda>himg.
     ebind (guarded (row_at row (footerImageIndex ix))) (\<lambda>fimg.
       Inr \<lparr>Company = company,
            Type = (case ty of None \<Rightarrow> [] | Some s \<Rightarrow> s),
            Description = desc,
            CompanyLink = link,
            Date = map_option (\<lambda>s. new_Date_value (Date_parse s)) dstr,
            HeaderImage = himg,
            FooterImage = fimg,
            selectionId = i\<rparr>)))))))"

definition CONVERTER :: "(string \<Rightarrow> jsnum) \<Rightarrow> column list \<Rightarrow> cell list list \<Rightarrow> error + TimelineData list" where
  "CONVERTER Date_parse cols rows =
     each_indexed (make_dp Date_parse (column_indices cols)) rows 0"

text \<open>\<^verbatim>\<open>timelineData.slice(0, 100)\<close>\<close>

definition cap :: "TimelineData list \<Rightarrow> TimelineData list" where
  "cap timelineData = take 100 timelineData"

definition extract_rows :: "(string \<Rightarrow> jsnum) \<Rightarrow> column list \<Rightarrow> cell list list \<Rightarrow> error + TimelineData list" where
  "extract_rows Date_parse cols rows = ebind (CONVERTER Date_parse cols rows) (\<lambda>tl. Inr (cap tl))"

section \<open>The date window of \<^verbatim>\<open>update\<close>\<close>

datatype layout_mode = LayoutHeader | LayoutFooter | LayoutNone

record settings =
  PreviousYear :: int
  FutureYear :: int
  layout :: layout_mode

text \<open>\<^verbatim>\<open>xs.map((d) => { if (p(d.Date.getFullYear())) { return d; } }).filter(e => e)\<close>:
  reading the year of a \<^verbatim>\<open>null\<close> date throws.\<close>

fun year_filter :: "(int option \<Rightarrow> bool) \<Rightarrow> TimelineData list \<Rightarrow> error + TimelineData list" where
  "year_filter p [] = Inr []"
| "year_filter p (d # ds) =
     (case Date d of None \<Rightarrow> Inl TypeError
      | Some dt \<Rightarrow> ebind (year_filter p ds) (\<lambda>r. Inr (if p (getFullYear dt) then d # r else r)))"

text \<open>The number a list element \<^verbatim>\<open>d.Date\<close> converts to inside \<^verbatim>\<open>Math.min\<close>.\<close>

definition ToNumber :: "jsdate option \<Rightarrow> jsnum" where
  "ToNumber d = (case d of None \<Rightarrow> Fin 0 | Some dt \<Rightarrow> getTime dt)"

text \<open>The branch \<^verbatim>\<open>timelineLocalData.length == 0\<close>: the window of the data.\<close>

definition data_window :: "TimelineData list \<Rightarrow> jsdate \<times> jsdate" where
  "data_window timelineData =
     (let minDate = new_Date_value (Math_min (map (\<lambda>d. ToNumber (Date d)) timelineData));
          maxDate = new_Date_value (Math_max (map (\<lambda>d. ToNumber (Date d)) timelineData))
      in (new_Date_ymd (getFullYear minDate) (Some 0) 1,
          new_Date_ymd (nan_plus (getFullYear maxDate) 1) (Some 0) 1))"

text \<open>Lines 124 to 142 of \<^verbatim>\<open>update\<close>: the result is \<^verbatim>\<open>minDate\<close>, \<^verbatim>\<open>maxDate\<close> and the
  \<^verbatim>\<open>timelineData\<close> that the rendering steps receive.\<close>

definition select_window ::
  "jsdate \<Rightarrow> settings \<Rightarrow> TimelineData list \<Rightarrow> error + (jsdate \<times> jsdate \<times> TimelineData list)" where
  "select_window currentDate st timelineData =
     (if length timelineData > 0 then
        (let minDate = new_Date_ymd (nan_plus (getFullYear currentDate) (- PreviousYear st)) (Some 0) 1 in
         ebind (year_filter (\<lambda>y. nan_le (getFullYear minDate) y) timelineData) (\<lambda>local1.
         (let maxDate = new_Date_ymd (nan_plus (getFullYear currentDate) (FutureYear st)) (Some 0) 1 in
          ebind (year_filter (\<lambda>y. nan_le y (getFullYear maxDate)) local1) (\<lambda>local2.
            if length local2 > 0 then Inr (minDate, maxDate, local2)
            else Inr (fst (data_window timelineData), snd (data_window timelineData), timelineData)))))
      else Inr (fst (data_window timelineData), snd (data_window timelineData), timelineData))"

section \<open>Colours, axis, connector lines and boxes\<close>

definition colors :: "string list" where
  "colors = [''#242B47'', ''#D5792E'', ''#8EB40E'', ''#597DAB'', ''#5AC1C4'', ''#595959'',
     ''#154360'', ''#0B5345'', ''#784212'', ''#424949'', ''#17202A'', ''#E74C3C'', ''#00ff00'',
     ''#0000ff'', ''#252D48'']"

text \<open>\<^verbatim>\<open>colors[i]\<close>: \<^verbatim>\<open>undefined\<close> (\<open>None\<close>) past the end of the array.\<close>

definition colors_at :: "nat \<Rightarrow> string option" where
  "colors_at i = (if i < length colors then Some (colors ! i) else None)"

record colorData =
  year :: int
  color :: "string option"

text \<open>The loop of \<^verbatim>\<open>getColorDataByYear\<close>, from the current year \<open>yr\<close> and index \<open>i\<close> up to
  \<open>hi\<close>, which is \<^verbatim>\<open>maxDate.getFullYear() + 1\<close>.\<close>

function color_loop :: "int \<Rightarrow> int \<Rightarrow> nat \<Rightarrow> colorData list" where
  "color_loop yr hi i =
     (if yr \<le> hi then \<lparr>year = yr, color = colors_at i\<rparr> # color_loop (yr + 1) hi (i + 1)
      else [])"
  by pat_completeness auto
termination
  by (relation "measure (\<lambda>(yr, hi, i). nat (hi + 1 - yr))") auto

declare color_loop.simps [simp del]

text \<open>With a \<^verbatim>\<open>NaN\<close> year on either side the loop condition is false at once.\<close>

definition getColorDataByYear :: "jsdate \<Rightarrow> jsdate \<Rightarrow> colorData list" where
  "getColorDataByYear minDate maxDate =
     (case getFullYear minDate of None \<Rightarrow> []
      | Some y0 \<Rightarrow> (case nan_plus (getFullYear maxDate) 1 of None \<Rightarrow> []
          | Some hi \<Rightarrow> color_loop y0 hi 0))"

text \<open>\<^verbatim>\<open>colorDataByYear.find(c => c.year === d.Date.getFullYear()).color\<close>: the read throws
  on a \<^verbatim>\<open>null\<close> date and when no entry is found.\<close>

definition lookup_color :: "colorData list \<Rightarrow> TimelineData \<Rightarrow> error + string option" where
  "lookup_color table d =
     (case Date d of None \<Rightarrow> Inl TypeError
      | Some dt \<Rightarrow>
          (case find (\<lambda>c. nan_eq (Some (year c)) (getFullYear dt)) table of
             None \<Rightarrow> Inl TypeError
           | Some c \<Rightarrow> Inr (color c)))"

text \<open>\<^verbatim>\<open>renderHeaderAndFooter\<close>: the \<^verbatim>\<open>src\<close> of the image it appends, if any. The layout
  is the lower-cased setting, \<^verbatim>\<open>validDataUrl\<close> is the imported validator.\<close>

datatype banner = NoBanner | HeaderImg "string option" | FooterImg "string option"

definition renderHeaderAndFooter ::
  "(string option \<Rightarrow> bool) \<Rightarrow> layout_mode \<Rightarrow> TimelineData list \<Rightarrow> error + banner" where
  "renderHeaderAndFooter validDataUrl lay timelineData =
     (case lay of
        LayoutHeader \<Rightarrow>
          (case timelineData of [] \<Rightarrow> Inl TypeError
           | timeline # _ \<Rightarrow>
               Inr (HeaderImg (if validDataUrl (HeaderImage timeline) then HeaderImage timeline
                               else Some [])))
      | LayoutFooter \<Rightarrow>
          (case timelineData of [] \<Rightarrow> Inl TypeError
           | timeline # _ \<Rightarrow>
               Inr (FooterImg (if validDataUrl (FooterImage timeline) then FooterImage timeline
                               else Some [])))
      | LayoutNone \<Rightarrow> Inr NoBanner)"

text \<open>\<^verbatim>\<open>diff_years(dt2, dt1)\<close>; \<open>None\<close> is \<^verbatim>\<open>NaN\<close>.\<close>

definition diff_years :: "jsdate \<Rightarrow> jsdate \<Rightarrow> int option" where
  "diff_years dt2 dt1 =
     (case getTime dt2 of Fin a \<Rightarrow>
        (case getTime dt1 of Fin b \<Rightarrow>
           (let diff = of_int (a - b) / 1000;
                diff = diff / (60 * 60 * 24)
            in Some \<bar>Math_round (diff / (36525 / 100))\<bar>)
         | _ \<Rightarrow> None)
      | _ \<Rightarrow> None)"

datatype granularity = Month | Year

record axis =
  x_domain :: "jsdate \<times> jsdate"
  x_ticks :: granularity
  x_range :: "int \<times> int"

text \<open>\<^verbatim>\<open>renderXandYAxis\<close>: the domain, tick unit and pixel range of \<^verbatim>\<open>xScale\<close>
  (\<^verbatim>\<open>margin.left\<close> is 40).\<close>

definition renderXandYAxis :: "jsdate \<Rightarrow> jsdate \<Rightarrow> int \<Rightarrow> axis" where
  "renderXandYAxis minDate maxDate gWidth =
     (if nan_le (diff_years minDate maxDate) (Some 1) then
        (let minDateMonthUpdated = new_Date_ymd (getFullYear minDate) (nan_plus (getMonth minDate) (- 1)) 1;
             maxDateMonthUpdated = new_Date_ymd (getFullYear maxDate) (nan_plus (getMonth maxDate) 1) 1
         in \<lparr>x_domain = (minDateMonthUpdated, maxDateMonthUpdated), x_ticks = Month,
              x_range = (40, gWidth)\<rparr>)
      else \<lparr>x_domain = (minDate, maxDate), x_ticks = Year, x_range = (40, gWidth)\<rparr>)"

text \<open>The vertical position chosen for the box of the event at index \<open>i\<close>, as the value handed
  to \<^verbatim>\<open>yScale\<close> in the \<^verbatim>\<open>transform\<close> of \<^verbatim>\<open>renderBox\<close>.\<close>

definition renderBox_y :: "nat \<Rightarrow> int" where
  "renderBox_y i =
     (if js_rem (of_nat i) 2 = 0 then
        (let count = of_nat i / 2 in
         if js_rem count 2 = 0 then - 100 else - 60)
      else
        (let count = of_int \<lceil>of_nat i / (2::rat)\<rceil> in
         if js_rem count 2 = 0 then 90 else 40))"

text \<open>The ends of the connector line of \<^verbatim>\<open>renderTimeRangeLines\<close>: \<^verbatim>\<open>y1\<close> and \<^verbatim>\<open>y2\<close> as
  the values handed to \<^verbatim>\<open>yScale\<close>, \<^verbatim>\<open>x1\<close> and \<^verbatim>\<open>x2\<close> in pixels, where \<^verbatim>\<open>xScale\<close> returns a
  number or \<^verbatim>\<open>NaN\<close> (\<open>None\<close>).\<close>

definition line_y1 :: "nat \<Rightarrow> int" where
  "line_y1 i = (if js_rem (of_nat i) 2 = 0 then - 10 else 10)"

definition line_y2 :: "nat \<Rightarrow> int" where
  "line_y2 i =
     (if js_rem (of_nat i) 2 = 0 then
        (let count = of_nat i / 2 in
         if js_rem count 2 = 0 then - 100 else - 60)
      else
        (let count = of_int \<lceil>of_nat i / (2::rat)\<rceil> in
         if js_rem count 2 = 0 then 90 else 40))"

definition line_x1 :: "(jsdate option \<Rightarrow> rat option) \<Rightarrow> TimelineData \<Rightarrow> rat" where
  "line_x1 xScale d = (case xScale (Date d) of None \<Rightarrow> 0 | Some x \<Rightarrow> x + 20)"

definition line_x2 :: "(jsdate option \<Rightarrow> rat option) \<Rightarrow> TimelineData \<Rightarrow> rat" where
  "line_x2 xScale d = (case xScale (Date d) of None \<Rightarrow> 0 | Some x \<Rightarrow> x + 20)"

record connector =
  x1 :: rat
  y1 :: int
  x2 :: rat
  y2 :: int
  stroke :: "string option"

record box =
  box_x :: "rat option"
  box_y :: int
  box_fill :: "string option"

definition renderTimeRangeLines ::
  "(jsdate option \<Rightarrow> rat option) \<Rightarrow> colorData list \<Rightarrow> TimelineData list \<Rightarrow> error + connector list" where
  "renderTimeRangeLines xScale colorDataByYear timelineData =
     each_indexed (\<lambda>d i. ebind (lookup_color colorDataByYear d) (\<lambda>c.
         Inr \<lparr>x1 = line_x1 xScale d, y1 = line_y1 i, x2 = line_x2 xScale d, y2 = line_y2 i,
              stroke = c\<rparr>))
       timelineData 0"

definition renderBox ::
  "(jsdate option \<Rightarrow> rat option) \<Rightarrow> colorData list \<Rightarrow> TimelineData list \<Rightarrow> error + box list" where
  "renderBox xScale colorDataByYear timelineData =
     each_indexed (\<lambda>d i. ebind (lookup_color colorDataByYear d) (\<lambda>c.
         Inr \<lparr>box_x = map_option (\<lambda>x. x - 25) (xScale (Date d)), box_y = renderBox_y i,
              box_fill = c\<rparr>))
       timelineData 0"

section \<open>The whole of \<^verbatim>\<open>update\<close>\<close>

text \<open>What \<^verbatim>\<open>update\<close> takes from outside the class: the date parser, the data-URL
  validator, the mapping of a \<^verbatim>\<open>d3.scaleTime\<close> with a given domain and range, the clock and
  the viewport width.\<close>

record platform =
  Date_parse :: "string \<Rightarrow> jsnum"
  validDataUrl :: "string option \<Rightarrow> bool"
  scaleTime :: "axis \<Rightarrow> jsdate option \<Rightarrow> rat option"
  currentDate :: jsdate
  vpWidth :: int

record rendering =
  r_minDate :: jsdate
  r_maxDate :: jsdate
  r_colorDataByYear :: "colorData list"
  r_banner :: banner
  r_axis :: axis
  r_lines :: "connector list"
  r_boxes :: "box list"

definition update :: "platform \<Rightarrow> settings \<Rightarrow> column list \<Rightarrow> cell list list \<Rightarrow> error + rendering" where
  "update pf st cols rows =
     (let gWidth = vpWidth pf - 40 - 40 in
      ebind (extract_rows (Date_parse pf) cols rows) (\<lambda>timelineData.
      ebind (select_window (currentDate pf) st timelineData) (\<lambda>(minDate, maxDate, timelineData).
      (let colorDataByYear = getColorDataByYear minDate maxDate in
       ebind (renderHeaderAndFooter (validDataUrl pf) (layout st) timelineData) (\<lambda>b.
       (let ax = renderXandYAxis minDate maxDate gWidth;
            xScale = scaleTime pf ax in
        ebind (renderTimeRangeLines xScale colorDataByYear timelineData) (\<lambda>ls.
        ebind (renderBox xScale colorDataByYear timelineData) (\<lambda>bs.
          Inr \<lparr>r_minDate = minDate, r_maxDate = maxDate, r_colorDataByYear = colorDataByYear,
               r_banner = b, r_axis = ax, r_lines = ls, r_boxes = bs\<rparr>))))))))"

section \<open>Notions of the specification\<close>

text \<open>The four lanes, named after the value of the vertical position.\<close>

datatype lane = FarNegative | NearNegative | NearPositive | FarPositive

fun lane_y :: "lane \<Rightarrow> int" where
  "lane_y FarNegative = - 100"
| "lane_y NearNegative = - 60"
| "lane_y NearPositive = 40"
| "lane_y FarPositive = 90"

text \<open>January 1 of year \<open>y\<close> at midnight: the time value at which the year starts.\<close>

definition Jan1 :: "int \<Rightarrow> jsdate" where
  "Jan1 y = Valid (DayFromYear y * msPerDay)"

text \<open>A year that the \<^verbatim>\<open>Date\<close> constructor takes as it is: not one of the two-digit years
  0 to 99, which it maps to 1900 to 1999, and with its January 1 inside the range of time
  values.\<close>

definition plain_year :: "int \<Rightarrow> bool" where
  "plain_year y = (\<not> (0 \<le> y \<and> y \<le> 99) \<and> - 271820 \<le> y \<and> y \<le> 275760)"

text \<open>An event with a valid date (a time value in the range of \<^verbatim>\<open>Date\<close>), its time value
  and its year.\<close>

definition event_time :: "TimelineData \<Rightarrow> int" where
  "event_time d = (case Date d of Some (Valid t) \<Rightarrow> t | _ \<Rightarrow> 0)"

definition event_year :: "TimelineData \<Rightarrow> int" where
  "event_year d = YearFromTime (event_time d)"

definition dated :: "TimelineData \<Rightarrow> bool" where
  "dated d = (case Date d of Some (Valid t) \<Rightarrow> \<bar>t\<bar> \<le> 8640000000000000 | _ \<Rightarrow> False)"

text \<open>An event in the window of the years \<open>lo\<close> to \<open>hi\<close>: its date is valid and its year
  lies in \<open>[lo, hi]\<close>. An Invalid Date has no year and is in no window.\<close>

definition in_window :: "int \<Rightarrow> int \<Rightarrow> TimelineData \<Rightarrow> bool" where
  "in_window lo hi d =
     (case Date d of Some (Valid t) \<Rightarrow> lo \<le> YearFromTime t \<and> YearFromTime t \<le> hi | _ \<Rightarrow> False)"

text \<open>The span of a window in years as the specification words it: the distance of the two
  dates in days, divided by 365.25 and rounded; \<open>None\<close> when a date is invalid.\<close>

definition years_span :: "jsdate \<Rightarrow> jsdate \<Rightarrow> int option" where
  "years_span minDate maxDate =
     (case minDate of Invalid \<Rightarrow> None
      | Valid a \<Rightarrow> (case maxDate of Invalid \<Rightarrow> None
          | Valid b \<Rightarrow> Some (Math_round (\<bar>of_int (b - a)\<bar> / of_int msPerDay / (36525 / 100)))))"

text \<open>A window date as \<^verbatim>\<open>update\<close> builds it with \<^verbatim>\<open>new Date(year, 0, 1)\<close>: an Invalid Date
  or a time value at midnight.\<close>

definition midnight :: "jsdate \<Rightarrow> bool" where
  "midnight d = (case d of Invalid \<Rightarrow> True | Valid t \<Rightarrow> t mod msPerDay = 0)"

text \<open>The roles in the order in which the loop of \<^verbatim>\<open>CONVERTER\<close> tests them, the role that a
  column binds (the first of them it carries), and the index variable of a role.\<close>

definition role_chain :: "string list" where
  "role_chain = [''Company'', ''Type'', ''Description'', ''CompanyLink'', ''Date'',
     ''HeaderImage'', ''FooterImage'']"

definition bound_role :: "column \<Rightarrow> string option" where
  "bound_role c = find (hasOwnProperty c) role_chain"

definition index_of :: "string \<Rightarrow> indices \<Rightarrow> int" where
  "index_of r ix =
     (if r = ''Company'' then companyIndex ix
      else if r = ''Type'' then typeIndex ix
      else if r = ''Description'' then descIndex ix
      else if r = ''CompanyLink'' then companylinkIndex ix
      else if r = ''Date'' then dateIndex ix
      else if r = ''HeaderImage'' then headerImageIndex ix
      else if r = ''FooterImage'' then footerImageIndex ix
      else - 1)"

text \<open>An event with a given date, for concrete instances.\<close>

definition sample_event :: "jsdate option \<Rightarrow> TimelineData" where
 "sample_event d = \<lparr>Company = ''A'', Type = [], Description = None, CompanyLink = None, Date = d,
             HeaderImage = None, FooterImage = None, selectionId = 0\<rparr>"

text \<open>A linear scale of one pixel per day from the epoch, \<^verbatim>\<open>NaN\<close> on an Invalid Date, and
  a platform with it, for concrete instances.\<close>

definition sample_scale :: "jsdate option \<Rightarrow> rat option" where
  "sample_scale d = (case d of Some (Valid t) \<Rightarrow> Some (of_int t / 86400000) | _ \<Rightarrow> None)"

definition sample_platform :: platform where
  "sample_platform = \<lparr>Date_parse = (\<lambda>s. NaN), validDataUrl = (\<lambda>u. False),
     scaleTime = (\<lambda>ax. sample_scale), currentDate = Jan1 2024, vpWidth = 800\<rparr>"

section \<open>Traversals\<close>

lemma each_indexed_Inr:
  "each_indexed f xs i = Inr rs \<Longrightarrow>
     length rs = length xs \<and> (\<forall>j<length xs. f (xs ! j) (i + j) = Inr (rs ! j))"
proof (induction xs arbitrary: i rs)
  case Nil
  then show ?case by simp
next
  case (Cons d ds)
  from Cons.prems obtain r rs' where
    r: "f d i = Inr r" and rs': "each_indexed f ds (i + 1) = Inr rs'" and eq: "rs = r # rs'"
    by (auto simp: ebind_def split: sum.splits)
  from Cons.IH [OF rs'] have
    len: "length rs' = length ds" and nth: "\<forall>j<length ds. f (ds ! j) (i + 1 + j) = Inr (rs' ! j)"
    by simp_all
  show ?case
  proof (intro conjI allI impI)
    show "length rs = length (d # ds)" using len eq by simp
  next
    fix j assume "j < length (d # ds)"
    then show "f ((d # ds) ! j) (i + j) = Inr (rs ! j)"
      using r nth eq by (cases j) auto
  qed
qed

lemma lookup_color_Inr_each:
  "each_indexed (\<lambda>d i. ebind (lookup_color table d) (\<lambda>c. Inr (g d i c))) evs k = Inr ls \<Longrightarrow>
   i < length evs \<Longrightarrow> \<exists>c. ls ! i = g (evs ! i) (k + i) c"
proof -
  assume a: "each_indexed (\<lambda>d i. ebind (lookup_color table d) (\<lambda>c. Inr (g d i c))) evs k = Inr ls"
    and i: "i < length evs"
  from each_indexed_Inr [OF a] i
  have "ebind (lookup_color table (evs ! i)) (\<lambda>c. Inr (g (evs ! i) (k + i) c)) = Inr (ls ! i)"
    by simp
  then show ?thesis by (auto simp: ebind_def split: sum.splits intro: sym)
qed

lemma nan_eq_Some: "nan_eq (Some a) (Some b) \<longleftrightarrow> a = b"
  by (simp add: nan_eq_def)

lemma color_loop_unfold:
  "yr \<le> hi \<Longrightarrow>
     color_loop yr hi i = \<lparr>year = yr, color = colors_at i\<rparr> # color_loop (yr + 1) hi (i + 1)"
  "\<not> yr \<le> hi \<Longrightarrow> color_loop yr hi i = []"
  by (subst color_loop.simps, simp)+

lemma YearFromTime_1970:
  "YearFromTime 86400000 = 1970"
  by code_simp

lemma colors_1970:
  "getColorDataByYear (Valid 86400000) (Valid 86400000) =
     [\<lparr>year = 1970, color = Some ''#242B47''\<rparr>, \<lparr>year = 1971, color = Some ''#D5792E''\<rparr>]"
  by (simp add: getColorDataByYear_def getFullYear_def nan_plus_def YearFromTime_1970
      color_loop_unfold colors_at_def colors_def)

section \<open>Slot placement\<close>

lemma js_rem_of_nat_2: "js_rem (of_nat n) 2 = of_nat (n mod 2)"
proof -
  have nn: "\<not> (of_nat n / (2::rat) < 0)" by simp
  have fl: "\<lfloor>of_nat n / (2::rat)\<rfloor> = int (n div 2)"
    using floor_divide_of_nat_eq [of n 2, where ?'a = rat] by simp
  have "(of_nat n :: rat) = of_nat (2 * (n div 2) + n mod 2)" by simp
  also have "\<dots> = 2 * of_nat (n div 2) + of_nat (n mod 2)"
    by (simp only: of_nat_add of_nat_mult of_nat_numeral)
  finally have "(of_nat n :: rat) - 2 * of_nat (n div 2) = of_nat (n mod 2)" by simp
  then show ?thesis unfolding js_rem_def using nn fl by simp
qed

lemma js_rem_zero_iff: "js_rem (of_nat n) 2 = 0 \<longleftrightarrow> even n"
  by (simp add: js_rem_of_nat_2 even_iff_mod_2_eq_zero)

lemma half_of_even: "even i \<Longrightarrow> of_nat i / (2::rat) = of_nat (i div 2)"
  by (auto elim!: evenE)

lemma ceiling_half: "of_int \<lceil>of_nat i / (2::rat)\<rceil> = (of_nat ((i + 1) div 2) :: rat)"
proof -
  have "\<lceil>of_nat i / (2::rat)\<rceil> = \<lceil>of_int (int i) / (of_int 2 :: rat)\<rceil>" by simp
  also have "\<dots> = - (- int i div 2)" by (rule ceiling_divide_eq_div)
  also have "\<dots> = int ((i + 1) div 2)" by presburger
  finally show ?thesis by simp
qed

lemma lane_rule:
  "(if js_rem (of_nat i) 2 = 0 then
        (let count = of_nat i / 2 in
         if js_rem count 2 = 0 then a else b)
      else
        (let count = of_int \<lceil>of_nat i / (2::rat)\<rceil> in
         if js_rem count 2 = 0 then c else d)) =
     (if even i then (if even (i div 2) then a else b)
      else (if even ((i + 1) div 2) then c else d))"
proof (cases "even i")
  case True
  then show ?thesis
    by (simp only: Let_def js_rem_zero_iff half_of_even if_True)
next
  case False
  then show ?thesis
    by (simp only: Let_def js_rem_zero_iff ceiling_half if_False)
qed

lemma renderBox_y_parity:
  "renderBox_y i =
     (if even i then (if even (i div 2) then - 100 else - 60)
      else (if even ((i + 1) div 2) then 90 else 40))"
  unfolding renderBox_y_def by (rule lane_rule)

lemma line_y2_parity:
  "line_y2 i =
     (if even i then (if even (i div 2) then - 100 else - 60)
      else (if even ((i + 1) div 2) then 90 else 40))"
  unfolding line_y2_def by (rule lane_rule)

text \<open>
  Claim C1, as amended. The vertical position of the event at index \<open>i\<close> depends on \<open>i\<close> alone:
  for even \<open>i\<close> the count is \<open>i / 2\<close>, an even count gives FarNegative (-100) and an odd one
  NearNegative (-60); for odd \<open>i\<close> the count is \<open>ceil(i / 2) = (i + 1) div 2\<close>, an even count
  gives FarPositive (90) and an odd one NearPositive (40). The box and the far end of the
  connector line agree, and whatever the events, their dates and the scale, the box and the
  line built for the event at index \<open>i\<close> are placed by this rule. For \<open>i = 0..7\<close> the lanes
  are FarNegative, NearPositive, NearNegative, FarPositive, FarNegative, NearPositive,
  NearNegative, FarPositive.
\<close>

theorem C1_lane_by_index:
  "renderBox_y i =
     (if even i then (if even (i div 2) then lane_y FarNegative else lane_y NearNegative)
      else (if even ((i + 1) div 2) then lane_y FarPositive else lane_y NearPositive))
   \<and> line_y2 i = renderBox_y i
   \<and> (\<forall>xScale table evs bs. renderBox xScale table evs = Inr bs \<and> i < length evs
        \<longrightarrow> box_y (bs ! i) = renderBox_y i)
   \<and> (\<forall>xScale table evs ls. renderTimeRangeLines xScale table evs = Inr ls \<and> i < length evs
        \<longrightarrow> y2 (ls ! i) = line_y2 i)
   \<and> map renderBox_y [0..<8] =
       map lane_y [FarNegative, NearPositive, NearNegative, FarPositive,
                   FarNegative, NearPositive, NearNegative, FarPositive]"
proof (intro conjI allI impI)
  show "renderBox_y i =
     (if even i then (if even (i div 2) then lane_y FarNegative else lane_y NearNegative)
      else (if even ((i + 1) div 2) then lane_y FarPositive else lane_y NearPositive))"
    by (simp only: renderBox_y_parity lane_y.simps)
  show "line_y2 i = renderBox_y i"
    by (simp only: renderBox_y_parity line_y2_parity)
  show "map renderBox_y [0..<8] =
       map lane_y [FarNegative, NearPositive, NearNegative, FarPositive,
                   FarNegative, NearPositive, NearNegative, FarPositive]"
    by (simp add: renderBox_y_parity upt_rec)
next
  fix xScale table evs bs
  assume h: "renderBox xScale table evs = Inr bs \<and> i < length evs"
  then have "\<exists>c. bs ! i = \<lparr>box_x = map_option (\<lambda>x. x - 25) (xScale (Date (evs ! i))),
      box_y = renderBox_y (0 + i), box_fill = c\<rparr>"
    unfolding renderBox_def
    using lookup_color_Inr_each [where g = "\<lambda>d i c. \<lparr>box_x = map_option (\<lambda>x. x - 25) (xScale (Date d)),
      box_y = renderBox_y i, box_fill = c\<rparr>" and k = 0 and i = i and evs = evs and ls = bs
      and table = table]
    by blast
  then show "box_y (bs ! i) = renderBox_y i" by auto
next
  fix xScale table evs ls
  assume h: "renderTimeRangeLines xScale table evs = Inr ls \<and> i < length evs"
  then have "\<exists>c. ls ! i = \<lparr>x1 = line_x1 xScale (evs ! i), y1 = line_y1 (0 + i),
       x2 = line_x2 xScale (evs ! i), y2 = line_y2 (0 + i), stroke = c\<rparr>"
    unfolding renderTimeRangeLines_def
    using lookup_color_Inr_each [where g = "\<lambda>d i c. \<lparr>x1 = line_x1 xScale d, y1 = line_y1 i,
       x2 = line_x2 xScale d, y2 = line_y2 i, stroke = c\<rparr>" and k = 0 and i = i and evs = evs
       and ls = ls and table = table]
    by blast
  then show "y2 (ls ! i) = line_y2 i" by auto
qed

lemma lookup_color_1970:
  "lookup_color (getColorDataByYear (Valid 86400000) (Valid 86400000))
     (sample_event (Some (Valid 86400000))) = Inr (Some ''#242B47'')"
  by (simp add: colors_1970 lookup_color_def sample_event_def getFullYear_def YearFromTime_1970
      nan_eq_def)

theorem C1_lane_by_index_witness:
  "renderBox sample_scale (getColorDataByYear (Valid 86400000) (Valid 86400000))
     (replicate 3 (sample_event (Some (Valid 86400000)))) =
     Inr [\<lparr>box_x = Some (- 24), box_y = lane_y FarNegative, box_fill = Some ''#242B47''\<rparr>,
          \<lparr>box_x = Some (- 24), box_y = lane_y NearPositive, box_fill = Some ''#242B47''\<rparr>,
          \<lparr>box_x = Some (- 24), box_y = lane_y NearNegative, box_fill = Some ''#242B47''\<rparr>]
   \<and> renderBox_y 1 = lane_y NearPositive \<and> renderBox_y 2 = lane_y NearNegative"
proof -
  let ?e = "sample_event (Some (Valid 86400000))"
  let ?table = "getColorDataByYear (Valid 86400000) (Valid 86400000)"
  have x: "sample_scale (Date ?e) = Some 1" by (simp add: sample_scale_def sample_event_def)
  have y: "renderBox_y 0 = - 100" "renderBox_y 1 = 40" "renderBox_y 2 = - 60"
    using conjunct1 [OF C1_lane_by_index [of 0]] conjunct1 [OF C1_lane_by_index [of 1]]
      conjunct1 [OF C1_lane_by_index [of 2]]
    by simp_all
  have y': "renderBox_y (Suc 0) = 40" "renderBox_y (Suc (Suc 0)) = - 60"
    using y(2,3) by (simp_all add: numeral_2_eq_2)
  have A: "renderBox sample_scale ?table (replicate 3 ?e) =
     Inr [\<lparr>box_x = Some (- 24), box_y = lane_y FarNegative, box_fill = Some ''#242B47''\<rparr>,
          \<lparr>box_x = Some (- 24), box_y = lane_y NearPositive, box_fill = Some ''#242B47''\<rparr>,
          \<lparr>box_x = Some (- 24), box_y = lane_y NearNegative, box_fill = Some ''#242B47''\<rparr>]"
    by (simp add: renderBox_def numeral_3_eq_3 lookup_color_1970 ebind_def x y(1) y')
  have B: "renderBox_y 1 = lane_y NearPositive" using y(2) by (simp only: lane_y.simps)
  have C: "renderBox_y 2 = lane_y NearNegative" using y(3) by (simp only: lane_y.simps)
  show ?thesis by (intro conjI A B C)
qed

text \<open>
  Claim C1 as stated fails: the sequence FarNegative, FarPositive, NearNegative, NearPositive,
  ... is not what the rule gives. At index 1 the count is \<open>ceil(1 / 2) = 1\<close>, which is odd, so
  the lane is NearPositive, and at index 3 the count is 2, so the lane is FarPositive.
\<close>

theorem C1_claimed_sequence_counterexample:
  "map renderBox_y [0..<8] \<noteq>
     map lane_y [FarNegative, FarPositive, NearNegative, NearPositive,
                 FarNegative, FarPositive, NearNegative, NearPositive]
   \<and> renderBox_y 1 = lane_y NearPositive \<and> renderBox_y 3 = lane_y FarPositive"
  by (simp add: renderBox_y_parity upt_rec)

section \<open>Row extraction\<close>

lemma each_indexed_total:
  "(\<And>d j. d \<in> set xs \<Longrightarrow> \<exists>r. f d j = Inr r) \<Longrightarrow> \<exists>rs. each_indexed f xs i = Inr rs"
proof (induction xs arbitrary: i)
  case Nil
  then show ?case by simp
next
  case (Cons d ds)
  obtain r where r: "f d i = Inr r" using Cons.prems [of d i] by auto
  have "\<exists>rs. each_indexed f ds (i + 1) = Inr rs"
    by (rule Cons.IH) (use Cons.prems in auto)
  then obtain rs where "each_indexed f ds (i + 1) = Inr rs" ..
  then show ?case using r by (simp add: ebind_def)
qed

lemma each_indexed_Inl:
  "d \<in> set xs \<Longrightarrow> (\<And>j. f d j = Inl TypeError) \<Longrightarrow> each_indexed f xs i = Inl TypeError"
proof (induction xs arbitrary: i)
  case Nil
  then show ?case by simp
next
  case (Cons a as)
  show ?case
  proof (cases "f a i")
    case (Inl e)
    then show ?thesis by (cases e) (simp add: ebind_def)
  next
    case (Inr r)
    from Cons.prems Inr have "d \<in> set as" by auto
    then have "each_indexed f as (i + 1) = Inl TypeError" using Cons by blast
    then show ?thesis using Inr by (simp add: ebind_def)
  qed
qed

lemma guarded_total: "\<exists>r. guarded c = Inr r"
  by (cases c) (auto simp: guarded_def ebind_def)

lemma guarded_falsy: "\<not> truthy c \<Longrightarrow> guarded c = Inr None"
  by (simp add: guarded_def)

lemma guarded_truthy: "truthy c \<Longrightarrow> \<exists>s. toString c = Inr s \<and> guarded c = Inr (Some s)"
  by (cases c) (auto simp: guarded_def ebind_def)

lemma make_dp_total:
  assumes "toString (row_at row (companyIndex ix)) = Inr s"
  shows "\<exists>dp. make_dp P ix row i = Inr dp"
proof -
  obtain a where a: "guarded (row_at row (typeIndex ix)) = Inr a" using guarded_total by blast
  obtain b where b: "guarded (row_at row (descIndex ix)) = Inr b" using guarded_total by blast
  obtain c where c: "guarded (row_at row (companylinkIndex ix)) = Inr c" using guarded_total by blast
  obtain d where d: "guarded (row_at row (dateIndex ix)) = Inr d" using guarded_total by blast
  obtain e where e: "guarded (row_at row (headerImageIndex ix)) = Inr e" using guarded_total by blast
  obtain f where f: "guarded (row_at row (footerImageIndex ix)) = Inr f" using guarded_total by blast
  show ?thesis unfolding make_dp_def by (simp add: assms a b c d e f ebind_def)
qed

lemma make_dp_Date:
  assumes "make_dp P ix row i = Inr dp"
  shows "guarded (row_at row (dateIndex ix)) = Inr None \<and> Date dp = None \<or>
         (\<exists>s. guarded (row_at row (dateIndex ix)) = Inr (Some s) \<and> Date dp = Some (new_Date_value (P s)))"
  using assms unfolding make_dp_def
  by (auto simp: ebind_def split: sum.splits option.splits)

lemma make_dp_throws:
  assumes "toString (row_at row (companyIndex ix)) = Inl TypeError"
  shows "make_dp P ix row i = Inl TypeError"
  unfolding make_dp_def by (simp add: assms ebind_def)

lemma toString_cases: "toString c = Inl TypeError \<longleftrightarrow> c = CNull \<or> c = CUndefined"
  by (cases c) auto


lemma toString_defined: "c \<noteq> CNull \<Longrightarrow> c \<noteq> CUndefined \<Longrightarrow> \<exists>s. toString c = Inr s"
  by (cases c) auto

lemma company_only_index:
  "companyIndex (column_indices [\<lparr>roles = [''Company'']\<rparr>]) = 0"
  by (simp add: column_indices_def bind_column_def hasOwnProperty_def)

lemma company_date_indices:
  "column_indices [\<lparr>roles = [''Company'']\<rparr>, \<lparr>roles = [''Date'']\<rparr>] =
     \<lparr>companyIndex = 0, companylinkIndex = - 1, typeIndex = - 1, descIndex = - 1,
      dateIndex = 1, headerImageIndex = - 1, footerImageIndex = - 1\<rparr>"
  by (simp add: column_indices_def bind_column_def hasOwnProperty_def no_indices_def)

subsection \<open>Binding of roles to columns\<close>

lemma bind_column_index_of:
  "r \<in> set role_chain \<Longrightarrow>
     index_of r (bind_column c ti ix) = (if bound_role c = Some r then ti else index_of r ix)"
  unfolding bind_column_def bound_role_def role_chain_def index_of_def
  by auto

lemma column_loop_snoc:
  "column_loop (cs @ [c]) ti ix = bind_column c (ti + int (length cs)) (column_loop cs ti ix)"
  by (induction cs arbitrary: ti ix) (simp_all add: algebra_simps)

lemma column_loop_none:
  assumes "r \<in> set role_chain" and "\<forall>c\<in>set cs. bound_role c \<noteq> Some r"
  shows "index_of r (column_loop cs ti ix) = index_of r ix"
  using assms(2)
proof (induction cs rule: rev_induct)
  case Nil
  then show ?case by simp
next
  case (snoc c cs)
  then show ?case
    by (simp add: column_loop_snoc bind_column_index_of [OF assms(1)])
qed

lemma column_loop_last:
  assumes r: "r \<in> set role_chain"
    and k: "k < length cs" and b: "bound_role (cs ! k) = Some r"
    and later: "\<forall>j. k < j \<and> j < length cs \<longrightarrow> bound_role (cs ! j) \<noteq> Some r"
  shows "index_of r (column_loop cs ti ix) = ti + int k"
  using k b later
proof (induction cs rule: rev_induct)
  case Nil
  then show ?case by simp
next
  case (snoc c cs)
  show ?case
  proof (cases "k = length cs")
    case True
    then have "bound_role c = Some r" using snoc.prems(2) by simp
    then show ?thesis
      using True by (simp add: column_loop_snoc bind_column_index_of [OF r])
  next
    case False
    then have k': "k < length cs" using snoc.prems(1) by simp
    have "bound_role ((cs @ [c]) ! length cs) \<noteq> Some r"
      using snoc.prems(3) k' by (metis length_append_singleton lessI)
    then have c: "bound_role c \<noteq> Some r" by simp
    have b': "bound_role (cs ! k) = Some r"
      using snoc.prems(2) k' by (simp add: nth_append)
    have l': "\<forall>j. k < j \<and> j < length cs \<longrightarrow> bound_role (cs ! j) \<noteq> Some r"
    proof (intro allI impI)
      fix j assume j: "k < j \<and> j < length cs"
      then have "bound_role ((cs @ [c]) ! j) \<noteq> Some r" using snoc.prems(3) by simp
      then show "bound_role (cs ! j) \<noteq> Some r" using j by (simp add: nth_append)
    qed
    from snoc.IH [OF k' b' l'] c show ?thesis
      by (simp add: column_loop_snoc bind_column_index_of [OF r])
  qed
qed

text \<open>
  Claim C9, as amended. Each role has one index variable, so it maps to at most one column.
  When several columns bind the same role, the last of them in column order wins: the
  loop runs over all columns and every match overwrites the index. A column binds the first
  role of the chain Company, Type, Description, CompanyLink, Date, HeaderImage, FooterImage
  that it carries. A role that no column binds keeps the index -1.
\<close>

theorem C9_last_match_wins:
  assumes "r \<in> set role_chain"
  shows "((\<forall>c\<in>set cols. bound_role c \<noteq> Some r) \<longrightarrow> index_of r (column_indices cols) = - 1)
       \<and> (k < length cols \<and> bound_role (cols ! k) = Some r
            \<and> (\<forall>j. k < j \<and> j < length cols \<longrightarrow> bound_role (cols ! j) \<noteq> Some r)
          \<longrightarrow> index_of r (column_indices cols) = int k)"
proof (intro conjI impI)
  assume "\<forall>c\<in>set cols. bound_role c \<noteq> Some r"
  then have "index_of r (column_indices cols) = index_of r no_indices"
    unfolding column_indices_def by (rule column_loop_none [OF assms])
  also have "\<dots> = - 1" by (simp add: index_of_def no_indices_def)
  finally show "index_of r (column_indices cols) = - 1" .
next
  assume h: "k < length cols \<and> bound_role (cols ! k) = Some r
            \<and> (\<forall>j. k < j \<and> j < length cols \<longrightarrow> bound_role (cols ! j) \<noteq> Some r)"
  then show "index_of r (column_indices cols) = int k"
    unfolding column_indices_def using column_loop_last [OF assms, of k cols 0 no_indices] by simp
qed

theorem C9_last_match_wins_witness:
  "''Company'' \<in> set role_chain
   \<and> bound_role ([\<lparr>roles = [''Company'']\<rparr>, \<lparr>roles = [''Date'']\<rparr>, \<lparr>roles = [''Company'', ''Type'']\<rparr>] ! 2) = Some ''Company''
   \<and> index_of ''Company'' (column_indices [\<lparr>roles = [''Company'']\<rparr>, \<lparr>roles = [''Date'']\<rparr>, \<lparr>roles = [''Company'', ''Type'']\<rparr>]) = 2
   \<and> index_of ''Type'' (column_indices [\<lparr>roles = [''Company'']\<rparr>, \<lparr>roles = [''Date'']\<rparr>, \<lparr>roles = [''Company'', ''Type'']\<rparr>]) = - 1"
proof -
  let ?cols = "[\<lparr>roles = [''Company'']\<rparr>, \<lparr>roles = [''Date'']\<rparr>, \<lparr>roles = [''Company'', ''Type'']\<rparr>]"
  have a: "''Company'' \<in> set role_chain" and t: "''Type'' \<in> set role_chain"
    by (simp_all add: role_chain_def)
  have b: "bound_role (?cols ! 2) = Some ''Company''"
    by (simp add: bound_role_def role_chain_def hasOwnProperty_def)
  have n: "\<forall>c\<in>set ?cols. bound_role c \<noteq> Some ''Type''"
    by (simp add: bound_role_def role_chain_def hasOwnProperty_def)
  have k: "2 < length ?cols" by simp
  have l: "\<forall>j. 2 < j \<and> j < length ?cols \<longrightarrow> bound_role (?cols ! j) \<noteq> Some ''Company''"
  proof (intro allI impI)
    fix j assume "2 < j \<and> j < length ?cols"
    then have "2 < j \<and> j < 3" by simp
    then show "bound_role (?cols ! j) \<noteq> Some ''Company''" by arith
  qed
  have "index_of ''Company'' (column_indices ?cols) = int 2"
    using C9_last_match_wins [OF a, of ?cols 2] k b l by blast
  moreover have "index_of ''Type'' (column_indices ?cols) = - 1"
    using C9_last_match_wins [OF t, of ?cols] n by blast
  ultimately show ?thesis using a b by simp
qed

text \<open>
  Claim C9 as stated fails: with two Company columns the role is bound to the second one
  (index 1), not to the first.
\<close>

theorem C9_first_match_counterexample:
  "companyIndex (column_indices [\<lparr>roles = [''Company'']\<rparr>, \<lparr>roles = [''Company'']\<rparr>]) = 1
   \<and> companyIndex (column_indices [\<lparr>roles = [''Company'']\<rparr>, \<lparr>roles = [''Company'']\<rparr>]) \<noteq> 0"
  by (simp add: column_indices_def bind_column_def hasOwnProperty_def no_indices_def)


subsection \<open>One event per row, capped at 100\<close>

text \<open>
  For a dataset of \<open>n\<close> rows in which every row has a value in the Company column (the cell
  is neither \<^verbatim>\<open>null\<close> nor \<^verbatim>\<open>undefined\<close>), the converter followed by the cap returns exactly
  \<open>min n 100\<close> events, and the event at position \<open>i\<close> is the one built from row \<open>i\<close>: the
  order of the rows is kept and the rows from 100 on are dropped.
\<close>

theorem capped_extraction:
  assumes "\<forall>row\<in>set rows. row_at row (companyIndex (column_indices cols)) \<noteq> CNull
              \<and> row_at row (companyIndex (column_indices cols)) \<noteq> CUndefined"
  shows "\<exists>evs. extract_rows P cols rows = Inr evs
           \<and> length evs = min (length rows) 100
           \<and> (\<forall>i<length evs. make_dp P (column_indices cols) (rows ! i) i = Inr (evs ! i))"
proof -
  let ?f = "make_dp P (column_indices cols)"
  have "\<exists>rs. each_indexed ?f rows 0 = Inr rs"
  proof (rule each_indexed_total)
    fix d j assume "d \<in> set rows"
    then obtain s where "toString (row_at d (companyIndex (column_indices cols))) = Inr s"
      using assms toString_defined by blast
    then show "\<exists>r. ?f d j = Inr r" by (rule make_dp_total)
  qed
  then obtain rs where rs: "each_indexed ?f rows 0 = Inr rs" ..
  from each_indexed_Inr [OF rs] have
    len: "length rs = length rows" and nth: "\<forall>j<length rows. ?f (rows ! j) (0 + j) = Inr (rs ! j)"
    by simp_all
  have ex: "extract_rows P cols rows = Inr (take 100 rs)"
    by (simp add: extract_rows_def CONVERTER_def rs ebind_def cap_def)
  have "length (take 100 rs) = min (length rows) 100" using len by simp
  moreover have "\<forall>i<length (take 100 rs). ?f (rows ! i) i = Inr (take 100 rs ! i)"
    using nth len by simp
  ultimately show ?thesis using ex by blast
qed

theorem capped_extraction_witness:
  "\<exists>evs. extract_rows (\<lambda>s. NaN) [\<lparr>roles = [''Company'']\<rparr>] (replicate 101 [CStr ''A'']) = Inr evs
     \<and> length evs = 100
     \<and> make_dp (\<lambda>s. NaN) (column_indices [\<lparr>roles = [''Company'']\<rparr>]) [CStr ''A''] 99 = Inr (evs ! 99)"
proof -
  let ?cols = "[\<lparr>roles = [''Company'']\<rparr>]"
  let ?rows = "replicate 101 [CStr ''A'']"
  have ci: "companyIndex (column_indices ?cols) = 0"
    by (simp add: column_indices_def bind_column_def hasOwnProperty_def)
  have h: "\<forall>row\<in>set ?rows. row_at row (companyIndex (column_indices ?cols)) \<noteq> CNull
              \<and> row_at row (companyIndex (column_indices ?cols)) \<noteq> CUndefined"
    by (simp add: ci row_at_def)
  from capped_extraction [OF h, of "\<lambda>s. NaN"] obtain evs where
    a: "extract_rows (\<lambda>s. NaN) ?cols ?rows = Inr evs" and b: "length evs = min (length ?rows) 100"
    and c: "\<forall>i<length evs. make_dp (\<lambda>s. NaN) (column_indices ?cols) (?rows ! i) i = Inr (evs ! i)"
    by blast
  have b': "length evs = 100" using b by simp
  have "make_dp (\<lambda>s. NaN) (column_indices ?cols) (?rows ! 99) 99 = Inr (evs ! 99)"
    using c b' by simp
  then have "make_dp (\<lambda>s. NaN) (column_indices ?cols) [CStr ''A''] 99 = Inr (evs ! 99)"
    by simp
  with a b' show ?thesis by blast
qed

lemma CONVERTER_blank_company:
  assumes "row \<in> set rows"
    and "row_at row (companyIndex (column_indices cols)) = CNull
         \<or> row_at row (companyIndex (column_indices cols)) = CUndefined"
  shows "CONVERTER P cols rows = Inl TypeError"
  unfolding CONVERTER_def
proof (rule each_indexed_Inl [OF assms(1)])
  fix j
  have "toString (row_at row (companyIndex (column_indices cols))) = Inl TypeError"
    using assms(2) by (simp add: toString_cases)
  then show "make_dp P (column_indices cols) row j = Inl TypeError"
    by (rule make_dp_throws)
qed

text \<open>
  Claim C4: the extraction stage is claimed to produce exactly \<open>min n 100\<close> events for every
  dataset of \<open>n\<close> rows. It does so whenever the converter returns, as shown above; but the
  converter throws on a row whose Company cell is blank, the defect of claim C7. A dataset
  of one row with a blank Company cell gives a TypeError and not one event; and so does a
  dataset of 101 rows of which only the last, which the cap would drop, has a blank
  Company cell.
\<close>

theorem C4_blank_company_throws:
  "extract_rows (\<lambda>s. NaN) [\<lparr>roles = [''Company'']\<rparr>] [[CNull]] = Inl TypeError
   \<and> \<not> (\<exists>evs. extract_rows (\<lambda>s. NaN) [\<lparr>roles = [''Company'']\<rparr>] [[CNull]] = Inr evs
            \<and> length evs = min (length [[CNull]]) 100)
   \<and> extract_rows (\<lambda>s. NaN) [\<lparr>roles = [''Company'']\<rparr>] (replicate 100 [CStr ''A''] @ [[CNull]])
       = Inl TypeError"
proof -
  have c: "row_at [CNull] (companyIndex (column_indices [\<lparr>roles = [''Company'']\<rparr>])) = CNull
      \<or> row_at [CNull] (companyIndex (column_indices [\<lparr>roles = [''Company'']\<rparr>])) = CUndefined"
    by (simp add: company_only_index row_at_def)
  have "CONVERTER (\<lambda>s. NaN) [\<lparr>roles = [''Company'']\<rparr>] [[CNull]] = Inl TypeError"
    by (rule CONVERTER_blank_company [OF _ c]) simp
  then have 1: "extract_rows (\<lambda>s. NaN) [\<lparr>roles = [''Company'']\<rparr>] [[CNull]] = Inl TypeError"
    by (simp add: extract_rows_def ebind_def)
  have "CONVERTER (\<lambda>s. NaN) [\<lparr>roles = [''Company'']\<rparr>] (replicate 100 [CStr ''A''] @ [[CNull]])
      = Inl TypeError"
    by (rule CONVERTER_blank_company [OF _ c]) simp
  then have 2: "extract_rows (\<lambda>s. NaN) [\<lparr>roles = [''Company'']\<rparr>]
      (replicate 100 [CStr ''A''] @ [[CNull]]) = Inl TypeError"
    by (simp add: extract_rows_def ebind_def)
  show ?thesis using 1 2 by simp
qed

text \<open>
  Claim C7: extraction is claimed never to throw, a row without a Company value giving an
  event with an empty company. The converter reads \<^verbatim>\<open>row[_companyIndex].toString()\<close> with no
  guard, unlike the six other fields of the same object literal: a \<^verbatim>\<open>null\<close> Company cell,
  and a table with no Company column (\<^verbatim>\<open>row[-1]\<close> is \<^verbatim>\<open>undefined\<close>), make it throw a
  TypeError, while a blank cell in a guarded field such as Type gives the default.
\<close>

theorem C7_blank_company_throws:
  "CONVERTER (\<lambda>s. NaN) [\<lparr>roles = [''Company'']\<rparr>, \<lparr>roles = [''Date'']\<rparr>]
     [[CNull, CStr ''2022-03-01'']] = Inl TypeError
   \<and> CONVERTER (\<lambda>s. NaN) [\<lparr>roles = [''Date'']\<rparr>] [[CStr ''2022-03-01'']] = Inl TypeError
   \<and> CONVERTER (\<lambda>s. NaN) [\<lparr>roles = [''Company'']\<rparr>, \<lparr>roles = [''Type'']\<rparr>] [[CStr ''A'', CNull]] =
       Inr [\<lparr>Company = ''A'', Type = [], Description = None, CompanyLink = None, Date = None,
             HeaderImage = None, FooterImage = None, selectionId = 0\<rparr>]"
proof (intro conjI)
  have "make_dp (\<lambda>s. NaN) (column_indices [\<lparr>roles = [''Company'']\<rparr>, \<lparr>roles = [''Date'']\<rparr>])
          [CNull, CStr ''2022-03-01''] 0 = Inl TypeError"
    by (rule make_dp_throws) (simp add: company_date_indices row_at_def)
  then show "CONVERTER (\<lambda>s. NaN) [\<lparr>roles = [''Company'']\<rparr>, \<lparr>roles = [''Date'']\<rparr>]
     [[CNull, CStr ''2022-03-01'']] = Inl TypeError"
    by (simp add: CONVERTER_def ebind_def)
next
  have "companyIndex (column_indices [\<lparr>roles = [''Date'']\<rparr>]) = - 1"
    by (simp add: column_indices_def bind_column_def hasOwnProperty_def no_indices_def)
  then have "make_dp (\<lambda>s. NaN) (column_indices [\<lparr>roles = [''Date'']\<rparr>]) [CStr ''2022-03-01''] 0
      = Inl TypeError"
    by (intro make_dp_throws) (simp add: row_at_def)
  then show "CONVERTER (\<lambda>s. NaN) [\<lparr>roles = [''Date'']\<rparr>] [[CStr ''2022-03-01'']] = Inl TypeError"
    by (simp add: CONVERTER_def ebind_def)
next
  have "column_indices [\<lparr>roles = [''Company'']\<rparr>, \<lparr>roles = [''Type'']\<rparr>] =
     \<lparr>companyIndex = 0, companylinkIndex = - 1, typeIndex = 1, descIndex = - 1,
      dateIndex = - 1, headerImageIndex = - 1, footerImageIndex = - 1\<rparr>"
    by (simp add: column_indices_def bind_column_def hasOwnProperty_def no_indices_def)
  then show "CONVERTER (\<lambda>s. NaN) [\<lparr>roles = [''Company'']\<rparr>, \<lparr>roles = [''Type'']\<rparr>] [[CStr ''A'', CNull]] =
       Inr [\<lparr>Company = ''A'', Type = [], Description = None, CompanyLink = None, Date = None,
             HeaderImage = None, FooterImage = None, selectionId = 0\<rparr>]"
    by (simp add: CONVERTER_def make_dp_def guarded_def ebind_def row_at_def)
qed

subsection \<open>Missing and unparsable dates\<close>

lemma year_filter_nonnull:
  "\<forall>d\<in>set evs. Date d \<noteq> None \<Longrightarrow>
     year_filter p evs = Inr (filter (\<lambda>d. p (getFullYear (the (Date d)))) evs)"
  by (induction evs) (auto simp: ebind_def)

lemma year_filter_null:
  "d \<in> set evs \<Longrightarrow> Date d = None \<Longrightarrow> year_filter p evs = Inl TypeError"
proof (induction evs)
  case Nil
  then show ?case by simp
next
  case (Cons a as)
  show ?case
  proof (cases "Date a")
    case None
    then show ?thesis by simp
  next
    case (Some dt)
    then have "d \<in> set as" using Cons.prems by auto
    then have "year_filter p as = Inl TypeError" using Cons by blast
    then show ?thesis using Some by (simp add: ebind_def)
  qed
qed

lemma select_window_total:
  assumes "\<forall>d\<in>set evs. Date d \<noteq> None"
  shows "\<exists>w. select_window cur st evs = Inr w"
proof -
  let ?lo = "getFullYear (new_Date_ymd (nan_plus (getFullYear cur) (- PreviousYear st)) (Some 0) 1)"
  let ?hi = "getFullYear (new_Date_ymd (nan_plus (getFullYear cur) (FutureYear st)) (Some 0) 1)"
  let ?l1 = "filter (\<lambda>d. nan_le ?lo (getFullYear (the (Date d)))) evs"
  let ?l2 = "filter (\<lambda>d. nan_le (getFullYear (the (Date d))) ?hi) ?l1"
  have 1: "year_filter (\<lambda>y. nan_le ?lo y) evs = Inr ?l1"
    by (rule year_filter_nonnull [OF assms])
  have "\<forall>d\<in>set ?l1. Date d \<noteq> None" using assms by simp
  then have 2: "year_filter (\<lambda>y. nan_le y ?hi) ?l1 = Inr ?l2"
    by (rule year_filter_nonnull)
  show ?thesis
    by (simp add: select_window_def Let_def 1 2 ebind_def)
qed

lemma select_window_null:
  assumes "d \<in> set evs" and "Date d = None"
  shows "select_window cur st evs = Inl TypeError"
proof -
  have "evs \<noteq> []" using assms(1) by auto
  then show ?thesis
    by (simp add: select_window_def Let_def year_filter_null [OF assms] ebind_def)
qed

text \<open>
  Claim C8, as amended. Given that the Company cell of the row converts to a string: a row
  whose date cell is missing (falsy) gives an event with date \<^verbatim>\<open>null\<close>, and a row whose date
  cell is present but does not parse gives an event with an Invalid Date, which is not
  \<^verbatim>\<open>null\<close>; both events pass through extraction. On events whose dates are all non-null, each
  of the two year filters of the date window returns without an exception and keeps no
  event with an Invalid Date, and the window selection as a whole returns.
\<close>

theorem C8_missing_and_unparsable_dates:
  assumes "toString (row_at row (companyIndex ix)) = Inr s"
  shows "(\<not> truthy (row_at row (dateIndex ix)) \<longrightarrow>
            (\<exists>dp. make_dp P ix row i = Inr dp \<and> Date dp = None))
       \<and> (truthy (row_at row (dateIndex ix))
            \<and> (\<exists>str. toString (row_at row (dateIndex ix)) = Inr str \<and> P str = NaN) \<longrightarrow>
            (\<exists>dp. make_dp P ix row i = Inr dp \<and> Date dp = Some Invalid))
       \<and> ((\<forall>d\<in>set evs. Date d \<noteq> None) \<longrightarrow>
            (\<exists>r. year_filter (\<lambda>y. nan_le lo y) evs = Inr r \<and> (\<forall>d\<in>set r. Date d \<noteq> Some Invalid))
          \<and> (\<exists>r. year_filter (\<lambda>y. nan_le y hi) evs = Inr r \<and> (\<forall>d\<in>set r. Date d \<noteq> Some Invalid))
          \<and> (\<exists>w. select_window cur st evs = Inr w))"
proof (intro conjI impI)
  obtain dp where dp: "make_dp P ix row i = Inr dp" using make_dp_total [OF assms] by blast
  {
    assume "\<not> truthy (row_at row (dateIndex ix))"
    then have "guarded (row_at row (dateIndex ix)) = Inr None" by (rule guarded_falsy)
    then have "Date dp = None" using make_dp_Date [OF dp] by auto
    then show "\<exists>dp. make_dp P ix row i = Inr dp \<and> Date dp = None" using dp by blast
  }
  {
    assume h: "truthy (row_at row (dateIndex ix))
            \<and> (\<exists>str. toString (row_at row (dateIndex ix)) = Inr str \<and> P str = NaN)"
    then obtain str where str: "toString (row_at row (dateIndex ix)) = Inr str" "P str = NaN"
      by blast
    have "guarded (row_at row (dateIndex ix)) = Inr (Some str)"
      using h str guarded_truthy [of "row_at row (dateIndex ix)"] by auto
    then have "Date dp = Some (new_Date_value (P str))" using make_dp_Date [OF dp] by auto
    then have "Date dp = Some Invalid" using str by (simp add: new_Date_value_def TimeClip_def)
    then show "\<exists>dp. make_dp P ix row i = Inr dp \<and> Date dp = Some Invalid" using dp by blast
  }
  {
    assume nn: "\<forall>d\<in>set evs. Date d \<noteq> None"
    show "\<exists>r. year_filter (\<lambda>y. nan_le lo y) evs = Inr r \<and> (\<forall>d\<in>set r. Date d \<noteq> Some Invalid)"
      using year_filter_nonnull [OF nn, of "\<lambda>y. nan_le lo y"]
      by (auto simp: getFullYear_def nan_le_def split: option.splits)
    show "\<exists>r. year_filter (\<lambda>y. nan_le y hi) evs = Inr r \<and> (\<forall>d\<in>set r. Date d \<noteq> Some Invalid)"
      using year_filter_nonnull [OF nn, of "\<lambda>y. nan_le y hi"]
      by (auto simp: getFullYear_def nan_le_def split: option.splits)
    show "\<exists>w. select_window cur st evs = Inr w"
      by (rule select_window_total [OF nn])
  }
qed

theorem C8_missing_and_unparsable_dates_witness:
  "(\<exists>dp. make_dp (\<lambda>s. NaN) (column_indices [\<lparr>roles = [''Company'']\<rparr>, \<lparr>roles = [''Date'']\<rparr>])
            [CStr ''A'', CNull] 0 = Inr dp \<and> Date dp = None)
   \<and> (\<exists>dp. make_dp (\<lambda>s. NaN) (column_indices [\<lparr>roles = [''Company'']\<rparr>, \<lparr>roles = [''Date'']\<rparr>])
            [CStr ''A'', CStr ''soon''] 0 = Inr dp \<and> Date dp = Some Invalid)
   \<and> (\<exists>r. year_filter (\<lambda>y. nan_le (Some 2023) y) [sample_event (Some Invalid), sample_event (Some (Jan1 2024))] = Inr r
          \<and> Date (sample_event (Some Invalid)) \<noteq> None \<and> sample_event (Some Invalid) \<notin> set r)"
proof -
  let ?ix = "column_indices [\<lparr>roles = [''Company'']\<rparr>, \<lparr>roles = [''Date'']\<rparr>]"
  let ?evs = "[sample_event (Some Invalid), sample_event (Some (Jan1 2024))]"
  have ix: "companyIndex ?ix = 0" "dateIndex ?ix = 1"
    by (simp_all add: column_indices_def bind_column_def hasOwnProperty_def no_indices_def)
  have c1: "toString (row_at [CStr ''A'', CNull] (companyIndex ?ix)) = Inr ''A''"
    and c2: "toString (row_at [CStr ''A'', CStr ''soon''] (companyIndex ?ix)) = Inr ''A''"
    by (simp_all add: ix row_at_def)
  have d1: "\<not> truthy (row_at [CStr ''A'', CNull] (dateIndex ?ix))"
    by (simp add: ix row_at_def)
  have d2: "truthy (row_at [CStr ''A'', CStr ''soon''] (dateIndex ?ix))
      \<and> (\<exists>str. toString (row_at [CStr ''A'', CStr ''soon''] (dateIndex ?ix)) = Inr str
             \<and> (\<lambda>s. NaN) str = NaN)"
    by (simp add: ix row_at_def)
  have nn: "\<forall>d\<in>set ?evs. Date d \<noteq> None" by (simp add: sample_event_def)
  note T1 = C8_missing_and_unparsable_dates [OF c1, where P = "\<lambda>s. NaN" and i = 0 and evs = ?evs
      and lo = "Some 2023" and hi = "Some 2032" and cur = "Jan1 2024"
      and st = "\<lparr>PreviousYear = 1, FutureYear = 8, layout = LayoutNone\<rparr>"]
  note T2 = C8_missing_and_unparsable_dates [OF c2, where P = "\<lambda>s. NaN" and i = 0 and evs = ?evs
      and lo = "Some 2023" and hi = "Some 2032" and cur = "Jan1 2024"
      and st = "\<lparr>PreviousYear = 1, FutureYear = 8, layout = LayoutNone\<rparr>"]
  have a: "\<exists>dp. make_dp (\<lambda>s. NaN) ?ix [CStr ''A'', CNull] 0 = Inr dp \<and> Date dp = None"
    by (rule mp [OF conjunct1 [OF T1] d1])
  have b: "\<exists>dp. make_dp (\<lambda>s. NaN) ?ix [CStr ''A'', CStr ''soon''] 0 = Inr dp \<and> Date dp = Some Invalid"
    by (rule mp [OF conjunct1 [OF conjunct2 [OF T2]] d2])
  have "\<exists>r. year_filter (\<lambda>y. nan_le (Some 2023) y) ?evs = Inr r
          \<and> (\<forall>d\<in>set r. Date d \<noteq> Some Invalid)"
    by (rule conjunct1 [OF mp [OF conjunct2 [OF conjunct2 [OF T1]] nn]])
  then obtain r where r: "year_filter (\<lambda>y. nan_le (Some 2023) y) ?evs = Inr r"
      "\<forall>d\<in>set r. Date d \<noteq> Some Invalid"
    by blast
  have i: "Date (sample_event (Some Invalid)) = Some Invalid" by (simp add: sample_event_def)
  have n: "Date (sample_event (Some Invalid)) \<noteq> None" by (simp add: sample_event_def)
  have "sample_event (Some Invalid) \<notin> set r" using r(2) i by blast
  with r(1) n have c: "\<exists>r. year_filter (\<lambda>y. nan_le (Some 2023) y) ?evs = Inr r
          \<and> Date (sample_event (Some Invalid)) \<noteq> None \<and> sample_event (Some Invalid) \<notin> set r"
    by blast
  show ?thesis by (intro conjI a b c)
qed

text \<open>
  Claim C8 as stated fails twice: an unparsable date cell gives an Invalid Date, not
  \<^verbatim>\<open>null\<close>; and an event whose date is \<^verbatim>\<open>null\<close> is not skipped by the year filter, which
  reads \<^verbatim>\<open>d.Date.getFullYear()\<close> and throws.
\<close>

theorem C8_null_and_invalid_counterexample:
  "CONVERTER (\<lambda>s. NaN) [\<lparr>roles = [''Company'']\<rparr>, \<lparr>roles = [''Date'']\<rparr>] [[CStr ''A'', CStr ''soon'']]
     = Inr [sample_event (Some Invalid)]
   \<and> Date (sample_event (Some Invalid)) \<noteq> None
   \<and> CONVERTER (\<lambda>s. NaN) [\<lparr>roles = [''Company'']\<rparr>, \<lparr>roles = [''Date'']\<rparr>] [[CStr ''A'', CNull]]
     = Inr [sample_event None]
   \<and> select_window (Jan1 2024) \<lparr>PreviousYear = 1, FutureYear = 8, layout = LayoutNone\<rparr>
       [sample_event None] = Inl TypeError"
proof (intro conjI)
  show "CONVERTER (\<lambda>s. NaN) [\<lparr>roles = [''Company'']\<rparr>, \<lparr>roles = [''Date'']\<rparr>] [[CStr ''A'', CStr ''soon'']]
     = Inr [sample_event (Some Invalid)]"
    by (simp add: CONVERTER_def company_date_indices make_dp_def guarded_def ebind_def row_at_def
        new_Date_value_def TimeClip_def sample_event_def)
  show "Date (sample_event (Some Invalid)) \<noteq> None"
    by (simp add: sample_event_def)
  show "CONVERTER (\<lambda>s. NaN) [\<lparr>roles = [''Company'']\<rparr>, \<lparr>roles = [''Date'']\<rparr>] [[CStr ''A'', CNull]]
     = Inr [sample_event None]"
    by (simp add: CONVERTER_def company_date_indices make_dp_def guarded_def ebind_def row_at_def
        sample_event_def)
  show "select_window (Jan1 2024) \<lparr>PreviousYear = 1, FutureYear = 8, layout = LayoutNone\<rparr>
       [sample_event None] = Inl TypeError"
    by (rule select_window_null [of "sample_event None"]) (simp_all add: sample_event_def)
qed

section \<open>Year colours\<close>

lemma colors_length: "length colors = 15"
  by (simp add: colors_def)

lemma color_loop_find:
  "y0 \<le> yr \<Longrightarrow> yr \<le> hi \<Longrightarrow>
     find (\<lambda>c. nan_eq (Some (year c)) (Some yr)) (color_loop y0 hi i) =
       Some \<lparr>year = yr, color = colors_at (i + nat (yr - y0))\<rparr>"
proof (induction y0 hi i rule: color_loop.induct)
  case (1 y0 hi i)
  show ?case
  proof (cases "yr = y0")
    case True
    then show ?thesis using "1.prems" by (subst color_loop.simps) (simp add: nan_eq_Some)
  next
    case False
    then have lt: "y0 + 1 \<le> yr" using "1.prems" by simp
    have le: "y0 \<le> hi" using "1.prems" by simp
    have e: "i + 1 + nat (yr - (y0 + 1)) = i + nat (yr - y0)" using lt by simp
    have "find (\<lambda>c. nan_eq (Some (year c)) (Some yr)) (color_loop (y0 + 1) hi (i + 1)) =
       Some \<lparr>year = yr, color = colors_at (i + 1 + nat (yr - (y0 + 1)))\<rparr>"
      using "1.IH" [OF le lt "1.prems"(2)] .
    then have "find (\<lambda>c. nan_eq (Some (year c)) (Some yr)) (color_loop (y0 + 1) hi (i + 1)) =
       Some \<lparr>year = yr, color = colors_at (i + nat (yr - y0))\<rparr>"
      by (simp only: e)
    moreover have "color_loop y0 hi i =
        \<lparr>year = y0, color = colors_at i\<rparr> # color_loop (y0 + 1) hi (i + 1)"
      using le by (subst color_loop.simps) simp
    ultimately show ?thesis using False by (simp add: nan_eq_Some)
  qed
qed

text \<open>
  Claim C3, as amended. For a window of two valid dates, the colour table has an entry for
  every year from the year of \<open>minDate\<close> to the year of \<open>maxDate\<close> plus one, and the lookup by
  exact year finds it. The entry of the year at distance \<open>k\<close> from the first year holds
  \<open>colors[k]\<close> when \<open>k < 15\<close>, and no colour (\<^verbatim>\<open>undefined\<close>) from the sixteenth year on: the
  index is not reduced modulo 15.
\<close>

theorem C3_palette_by_index:
  assumes "YearFromTime a \<le> yr" and "yr \<le> YearFromTime b + 1"
  shows "find (\<lambda>c. nan_eq (Some (year c)) (Some yr)) (getColorDataByYear (Valid a) (Valid b)) =
           Some \<lparr>year = yr,
                 color = (if yr - YearFromTime a < 15 then Some (colors ! nat (yr - YearFromTime a))
                          else None)\<rparr>"
proof -
  have "getColorDataByYear (Valid a) (Valid b) = color_loop (YearFromTime a) (YearFromTime b + 1) 0"
    by (simp add: getColorDataByYear_def getFullYear_def nan_plus_def)
  moreover have "colors_at (0 + nat (yr - YearFromTime a)) =
      (if yr - YearFromTime a < 15 then Some (colors ! nat (yr - YearFromTime a)) else None)"
    using assms(1) by (auto simp: colors_at_def colors_length)
  ultimately show ?thesis using color_loop_find [OF assms, of 0] by simp
qed

lemma YearFromTime_2000: "YearFromTime 946684800000 = 2000"
  by code_simp
lemma YearFromTime_2014: "YearFromTime 1388534400000 = 2014"
  by code_simp
lemma Jan1_2000: "Jan1 2000 = Valid 946684800000"
  by code_simp
lemma Jan1_2014: "Jan1 2014 = Valid 1388534400000"
  by code_simp

theorem C3_palette_by_index_witness:
  "YearFromTime 946684800000 \<le> 2015 \<and> 2015 \<le> YearFromTime 1388534400000 + 1
   \<and> find (\<lambda>c. nan_eq (Some (year c)) (Some 2015))
        (getColorDataByYear (Valid 946684800000) (Valid 1388534400000)) =
       Some \<lparr>year = 2015, color = None\<rparr>
   \<and> find (\<lambda>c. nan_eq (Some (year c)) (Some 2003))
        (getColorDataByYear (Valid 946684800000) (Valid 1388534400000)) =
       Some \<lparr>year = 2003, color = Some ''#597DAB''\<rparr>"
proof -
  have a: "YearFromTime 946684800000 \<le> 2015" and b: "2015 \<le> YearFromTime 1388534400000 + 1"
    and c: "YearFromTime 946684800000 \<le> 2003" and d: "2003 \<le> YearFromTime 1388534400000 + 1"
    by (simp_all add: YearFromTime_2000 YearFromTime_2014)
  show ?thesis
    using C3_palette_by_index [OF a b] C3_palette_by_index [OF c d] a b
    by (simp add: YearFromTime_2000 colors_def)
qed

text \<open>
  Claim C3 as stated fails on a window of sixteen years: 2000 has the first colour of the
  palette, and 2015, fifteen years later and at index 15, has none, where the claim gives
  it \<open>colors[15 mod 15]\<close>.
\<close>

theorem C3_no_wraparound_counterexample:
  "find (\<lambda>c. nan_eq (Some (year c)) (Some 2000)) (getColorDataByYear (Jan1 2000) (Jan1 2014))
     = Some \<lparr>year = 2000, color = Some (colors ! 0)\<rparr>
   \<and> find (\<lambda>c. nan_eq (Some (year c)) (Some 2015)) (getColorDataByYear (Jan1 2000) (Jan1 2014))
     = Some \<lparr>year = 2015, color = None\<rparr>
   \<and> Some (colors ! (15 mod 15)) \<noteq> (None :: string option)"
  by code_simp

section \<open>The empty dataset\<close>

lemma extract_rows_empty: "extract_rows P cols [] = Inr []"
  by (simp add: extract_rows_def CONVERTER_def ebind_def cap_def)

lemma data_window_empty: "data_window [] = (Invalid, Invalid)"
  by (simp add: data_window_def Math_min_def Math_max_def new_Date_value_def TimeClip_def
      getFullYear_def new_Date_ymd_def nan_plus_def)

lemma select_window_empty: "select_window cur st [] = Inr (Invalid, Invalid, [])"
  by (simp add: select_window_def data_window_empty)

lemma axis_invalid:
  "renderXandYAxis Invalid Invalid w = \<lparr>x_domain = (Invalid, Invalid), x_ticks = Year, x_range = (40, w)\<rparr>"
  by (simp add: renderXandYAxis_def diff_years_def getTime_def nan_le_def)

text \<open>
  Claim C6, as amended. \<^verbatim>\<open>update\<close> has no early exit for a dataset of zero rows. The window
  falls back to the data, whose minimum and maximum over no dates are infinite, so both
  window dates are Invalid Dates; the colour table is empty; the axis scale is still built,
  with yearly ticks over the Invalid-Date window; no line and no box is produced. With a
  layout other than header and footer these steps raise no exception.
\<close>

theorem C6_empty_dataset:
  assumes "layout st = LayoutNone"
  shows "update pf st cols [] =
     Inr \<lparr>r_minDate = Invalid, r_maxDate = Invalid, r_colorDataByYear = [], r_banner = NoBanner,
          r_axis = \<lparr>x_domain = (Invalid, Invalid), x_ticks = Year, x_range = (40, vpWidth pf - 40 - 40)\<rparr>,
          r_lines = [], r_boxes = []\<rparr>"
  unfolding update_def Let_def
  by (simp add: extract_rows_empty select_window_empty ebind_def assms renderHeaderAndFooter_def
      getColorDataByYear_def getFullYear_def axis_invalid renderTimeRangeLines_def renderBox_def)

theorem C6_empty_dataset_witness:
  "layout \<lparr>PreviousYear = 1, FutureYear = 8, layout = LayoutNone\<rparr> = LayoutNone
   \<and> update sample_platform \<lparr>PreviousYear = 1, FutureYear = 8, layout = LayoutNone\<rparr>
       [\<lparr>roles = [''Company'']\<rparr>] [] =
     Inr \<lparr>r_minDate = Invalid, r_maxDate = Invalid, r_colorDataByYear = [], r_banner = NoBanner,
          r_axis = \<lparr>x_domain = (Invalid, Invalid), x_ticks = Year, x_range = (40, 720)\<rparr>,
          r_lines = [], r_boxes = []\<rparr>"
proof -
  have h: "layout \<lparr>PreviousYear = 1, FutureYear = 8, layout = LayoutNone\<rparr> = LayoutNone" by simp
  have v: "vpWidth sample_platform - 40 - 40 = 720" by (simp add: sample_platform_def)
  show ?thesis
    using C6_empty_dataset [OF h, of sample_platform "[\<lparr>roles = [''Company'']\<rparr>]"] h
    by (simp only: v simp_thms)
qed

text \<open>
  Claim C6 as stated fails: with the header layout the empty dataset makes
  \<^verbatim>\<open>renderHeaderAndFooter\<close> read \<^verbatim>\<open>timeline.HeaderImage\<close> of \<^verbatim>\<open>undefined\<close>, which throws;
  and with no banner the axis scale is computed all the same.
\<close>

theorem C6_empty_dataset_counterexample:
  "update sample_platform \<lparr>PreviousYear = 1, FutureYear = 8, layout = LayoutHeader\<rparr>
       [\<lparr>roles = [''Company'']\<rparr>] [] = Inl TypeError
   \<and> (\<exists>r. update sample_platform \<lparr>PreviousYear = 1, FutureYear = 8, layout = LayoutNone\<rparr>
       [\<lparr>roles = [''Company'']\<rparr>] [] = Inr r
       \<and> r_axis r = \<lparr>x_domain = (Invalid, Invalid), x_ticks = Year, x_range = (40, 720)\<rparr>)"
proof (intro conjI)
  show "update sample_platform \<lparr>PreviousYear = 1, FutureYear = 8, layout = LayoutHeader\<rparr>
       [\<lparr>roles = [''Company'']\<rparr>] [] = Inl TypeError"
    unfolding update_def Let_def
    by (simp add: extract_rows_empty select_window_empty ebind_def renderHeaderAndFooter_def)
  have "update sample_platform \<lparr>PreviousYear = 1, FutureYear = 8, layout = LayoutNone\<rparr>
       [\<lparr>roles = [''Company'']\<rparr>] [] = 
     Inr \<lparr>r_minDate = Invalid, r_maxDate = Invalid, r_colorDataByYear = [], r_banner = NoBanner,
          r_axis = \<lparr>x_domain = (Invalid, Invalid), x_ticks = Year, x_range = (40, 720)\<rparr>,
          r_lines = [], r_boxes = []\<rparr>"
    unfolding update_def Let_def
    by (simp add: extract_rows_empty select_window_empty ebind_def renderHeaderAndFooter_def
      getColorDataByYear_def getFullYear_def axis_invalid renderTimeRangeLines_def renderBox_def
      sample_platform_def)
  then show "\<exists>r. update sample_platform \<lparr>PreviousYear = 1, FutureYear = 8, layout = LayoutNone\<rparr>
       [\<lparr>roles = [''Company'']\<rparr>] [] = Inr r
       \<and> r_axis r = \<lparr>x_domain = (Invalid, Invalid), x_ticks = Year, x_range = (40, 720)\<rparr>"
    by simp
qed

section \<open>The calendar\<close>

lemma DayFromYear_strict_mono: "a < b \<Longrightarrow> DayFromYear a < DayFromYear b"
proof -
  assume "a < b"
  then have "a + 1 \<le> b" by simp
  then show ?thesis
  proof (induction b rule: int_ge_induct)
    case base
    show ?case by (rule DayFromYear_less)
  next
    case (step i)
    then show ?case using DayFromYear_less [of i] by simp
  qed
qed

lemma DayFromYear_mono: "a \<le> b \<Longrightarrow> DayFromYear a \<le> DayFromYear b"
  using DayFromYear_strict_mono [of a b] by (cases "a = b") auto

lemma DayFromYear_less_cancel: "DayFromYear a < DayFromYear b \<Longrightarrow> a < b"
proof (rule ccontr)
  assume less: "DayFromYear a < DayFromYear b" and "\<not> a < b"
  then have "b \<le> a" by simp
  then have "DayFromYear b \<le> DayFromYear a" by (rule DayFromYear_mono)
  with less show False by simp
qed

lemma year_down_spec: "DayFromYear (year_down d y) \<le> d"
proof (induction d y rule: year_down.induct)
  case (1 d y)
  then show ?case by (subst year_down.simps) auto
qed

lemma year_up_spec:
  "DayFromYear y \<le> d \<Longrightarrow>
     DayFromYear (year_up d y) \<le> d \<and> d < DayFromYear (year_up d y + 1)"
proof (induction d y rule: year_up.induct)
  case (1 d y)
  show ?case
  proof (cases "DayFromYear (y + 1) \<le> d")
    case True
    then show ?thesis using "1.IH" by (subst (1 2) year_up.simps) simp
  next
    case False
    then show ?thesis using "1.prems" by (subst (1 2) year_up.simps) simp
  qed
qed

lemma YearFromDay_spec:
  "DayFromYear (YearFromDay d) \<le> d \<and> d < DayFromYear (YearFromDay d + 1)"
  unfolding YearFromDay_def by (rule year_up_spec) (rule year_down_spec)

lemma YearFromDay_unique:
  assumes "DayFromYear y \<le> d" and "d < DayFromYear (y + 1)"
  shows "YearFromDay d = y"
proof -
  let ?Y = "YearFromDay d"
  have "DayFromYear ?Y < DayFromYear (y + 1)" using YearFromDay_spec [of d] assms(2) by simp
  then have 1: "?Y < y + 1" by (rule DayFromYear_less_cancel)
  have "DayFromYear y < DayFromYear (?Y + 1)" using YearFromDay_spec [of d] assms(1) by simp
  then have "y < ?Y + 1" by (rule DayFromYear_less_cancel)
  with 1 show ?thesis by simp
qed

lemma YearFromDay_mono: "d1 \<le> d2 \<Longrightarrow> YearFromDay d1 \<le> YearFromDay d2"
proof -
  assume "d1 \<le> d2"
  then have "DayFromYear (YearFromDay d1) < DayFromYear (YearFromDay d2 + 1)"
    using YearFromDay_spec [of d1] YearFromDay_spec [of d2] by simp
  then have "YearFromDay d1 < YearFromDay d2 + 1" by (rule DayFromYear_less_cancel)
  then show ?thesis by simp
qed

lemma Day_of_days: "Day (k * msPerDay) = k"
  by (simp add: Day_def msPerDay_def)

lemma YearFromTime_mono: "t1 \<le> t2 \<Longrightarrow> YearFromTime t1 \<le> YearFromTime t2"
  unfolding YearFromTime_def Day_def
  by (rule YearFromDay_mono) (simp add: zdiv_mono1 msPerDay_def)

lemma YearFromTime_start: "YearFromTime (DayFromYear y * msPerDay) = y"
  unfolding YearFromTime_def Day_of_days
  by (rule YearFromDay_unique) (simp_all add: DayFromYear_less)

lemma getFullYear_Jan1: "getFullYear (Jan1 y) = Some y"
  by (simp add: getFullYear_def Jan1_def YearFromTime_start)

lemma DayFromYear_top: "DayFromYear 275760 = 99999744"
  by (simp add: DayFromYear_def)

lemma DayFromYear_bottom: "DayFromYear (- 271820) = - 99999744"
  by (simp add: DayFromYear_def)

lemma plain_year_in_range:
  assumes "plain_year y"
  shows "\<bar>DayFromYear y * msPerDay\<bar> \<le> 8640000000000000"
proof -
  have "DayFromYear y \<le> 99999744"
    using DayFromYear_mono [of y 275760] assms by (simp add: plain_year_def DayFromYear_top)
  moreover have "- 99999744 \<le> DayFromYear y"
    using DayFromYear_mono [of "- 271820" y] assms by (simp add: plain_year_def DayFromYear_bottom)
  ultimately show ?thesis by (simp add: msPerDay_def abs_le_iff)
qed

lemma MakeDay_Jan1: "MakeDay y 0 1 = DayFromYear y"
  by (simp add: MakeDay_def month_start_def)

lemma new_Date_ymd_Jan1:
  assumes "plain_year y"
  shows "new_Date_ymd (Some y) (Some 0) 1 = Jan1 y"
proof -
  have "(0 \<le> y \<and> y \<le> 99) = False" using assms by (simp add: plain_year_def)
  then show ?thesis
    using plain_year_in_range [OF assms]
    by (simp only: new_Date_ymd_def MakeDay_Jan1 TimeClip_def Jan1_def Let_def
        option.case jsnum.case if_False if_True)
qed

lemma new_Date_ymd_two_digits:
  "0 \<le> y \<Longrightarrow> y \<le> 99 \<Longrightarrow> new_Date_ymd (Some y) (Some 0) 1 = Jan1 (1900 + y)"
proof -
  assume a: "0 \<le> y" "y \<le> 99"
  then have "plain_year (1900 + y)" by (simp add: plain_year_def)
  from plain_year_in_range [OF this] a show ?thesis
    by (simp add: new_Date_ymd_def MakeDay_Jan1 TimeClip_def Jan1_def)
qed

lemma DayFromYear_above: "DayFromYear 275761 = 100000110"
  by (simp add: DayFromYear_def)

lemma DayFromYear_below: "DayFromYear (- 271821) = - 100000109"
  by (simp add: DayFromYear_def)

lemma new_Date_ymd_out_of_range:
  assumes "y < - 271820 \<or> 275760 < y"
  shows "new_Date_ymd (Some y) (Some 0) 1 = Invalid"
proof -
  have two: "(0 \<le> y \<and> y \<le> 99) = False" using assms by auto
  have "8640000000000000 < \<bar>DayFromYear y * msPerDay\<bar>"
  proof (cases "275760 < y")
    case True
    then have "100000110 \<le> DayFromYear y"
      using DayFromYear_mono [of 275761 y] by (simp add: DayFromYear_above)
    then show ?thesis by (simp add: msPerDay_def)
  next
    case False
    then have "DayFromYear y \<le> - 100000109"
      using assms DayFromYear_mono [of y "- 271821"] by (simp add: DayFromYear_below)
    then show ?thesis by (simp add: msPerDay_def)
  qed
  then have "(\<bar>DayFromYear y * msPerDay\<bar> \<le> 8640000000000000) = False" by simp
  then show ?thesis
    using two
    by (simp only: new_Date_ymd_def MakeDay_Jan1 TimeClip_def Let_def
        option.case jsnum.case if_False)
qed

lemma candidate_year:
  "getFullYear (new_Date_ymd (Some y) (Some 0) 1) =
     (if 0 \<le> y \<and> y \<le> 99 then Some (1900 + y) else if plain_year y then Some y else None)"
proof -
  consider (two) "0 \<le> y \<and> y \<le> 99" | (plain) "plain_year y" | (out) "y < - 271820 \<or> 275760 < y"
    unfolding plain_year_def by arith
  then show ?thesis
  proof cases
    case two
    then show ?thesis by (simp add: new_Date_ymd_two_digits getFullYear_Jan1)
  next
    case plain
    then have "\<not> (0 \<le> y \<and> y \<le> 99)" by (simp add: plain_year_def)
    then show ?thesis using plain by (simp add: new_Date_ymd_Jan1 getFullYear_Jan1)
  next
    case out
    then have "\<not> (0 \<le> y \<and> y \<le> 99)" and "\<not> plain_year y" by (auto simp: plain_year_def)
    then show ?thesis using new_Date_ymd_out_of_range [OF out] by (simp add: getFullYear_def)
  qed
qed

lemma Jan1_inject: "Jan1 a = Jan1 b \<longleftrightarrow> a = b"
proof
  assume "Jan1 a = Jan1 b"
  then have "getFullYear (Jan1 a) = getFullYear (Jan1 b)" by simp
  then show "a = b" by (simp add: getFullYear_Jan1)
qed simp

section \<open>Date window selection\<close>

lemma dated_Date: "dated d \<Longrightarrow> Date d = Some (Valid (event_time d))"
  by (auto simp: dated_def event_time_def split: option.splits jsdate.splits)

lemma dated_range: "dated d \<Longrightarrow> \<bar>event_time d\<bar> \<le> 8640000000000000"
  by (auto simp: dated_def event_time_def split: option.splits jsdate.splits)

lemma dated_year: "dated d \<Longrightarrow> getFullYear (the (Date d)) = Some (event_year d)"
  by (simp add: dated_Date getFullYear_def event_year_def)

lemma Min_insert_min:
  "finite S \<Longrightarrow> Min (insert (min a t) S) = Min (insert a (insert t S))" for a t :: int
  by (cases "S = {}") (simp_all add: min.assoc)

lemma Max_insert_max:
  "finite S \<Longrightarrow> Max (insert (max a t) S) = Max (insert a (insert t S))" for a t :: int
  by (cases "S = {}") (simp_all add: max.assoc)

lemma foldl_min2_Fin: "foldl min2 (Fin a) (map Fin ts) = Fin (Min (insert a (set ts)))"
proof (induction ts arbitrary: a)
  case Nil
  then show ?case by simp
next
  case (Cons t ts)
  then show ?case by (simp add: Min_insert_min)
qed

lemma foldl_max2_Fin: "foldl max2 (Fin a) (map Fin ts) = Fin (Max (insert a (set ts)))"
proof (induction ts arbitrary: a)
  case Nil
  then show ?case by simp
next
  case (Cons t ts)
  then show ?case by (simp add: Max_insert_max)
qed

lemma Math_min_Fin: "ts \<noteq> [] \<Longrightarrow> Math_min (map Fin ts) = Fin (Min (set ts))"
  by (cases ts) (simp_all add: Math_min_def foldl_min2_Fin)

lemma Math_max_Fin: "ts \<noteq> [] \<Longrightarrow> Math_max (map Fin ts) = Fin (Max (set ts))"
  by (cases ts) (simp_all add: Math_max_def foldl_max2_Fin)

lemma dated_numbers:
  "\<forall>d\<in>set evs. dated d \<Longrightarrow> map (\<lambda>d. ToNumber (Date d)) evs = map Fin (map event_time evs)"
  by (induction evs) (simp_all add: dated_Date ToNumber_def getTime_def)

lemma YearFromTime_Min:
  "finite T \<Longrightarrow> T \<noteq> {} \<Longrightarrow> YearFromTime (Min T) = Min (YearFromTime ` T)"
  by (rule mono_Min_commute) (auto intro: monoI YearFromTime_mono)

lemma YearFromTime_Max:
  "finite T \<Longrightarrow> T \<noteq> {} \<Longrightarrow> YearFromTime (Max T) = Max (YearFromTime ` T)"
  by (rule mono_Max_commute) (auto intro: monoI YearFromTime_mono)

lemma data_window_years:
  assumes ne: "evs \<noteq> []" and dated: "\<forall>d\<in>set evs. dated d"
  shows "data_window evs =
     (new_Date_ymd (Some (Min (event_year ` set evs))) (Some 0) 1,
      new_Date_ymd (Some (Max (event_year ` set evs) + 1)) (Some 0) 1)"
proof -
  let ?T = "event_time ` set evs"
  have fin: "finite ?T" and nonempty: "?T \<noteq> {}" using ne by simp_all
  have mn: "Math_min (map (\<lambda>d. ToNumber (Date d)) evs) = Fin (Min ?T)"
    using ne Math_min_Fin [of "map event_time evs"] by (simp only: dated_numbers [OF dated]) simp
  have mx: "Math_max (map (\<lambda>d. ToNumber (Date d)) evs) = Fin (Max ?T)"
    using ne Math_max_Fin [of "map event_time evs"] by (simp only: dated_numbers [OF dated]) simp
  have "Min ?T \<in> ?T" using fin nonempty by (rule Min_in)
  then obtain d1 where d1: "d1 \<in> set evs" "Min ?T = event_time d1" by auto
  have "Max ?T \<in> ?T" using fin nonempty by (rule Max_in)
  then obtain d2 where d2: "d2 \<in> set evs" "Max ?T = event_time d2" by auto
  have r1: "\<bar>Min ?T\<bar> \<le> 8640000000000000" using d1 dated dated_range by simp
  have r2: "\<bar>Max ?T\<bar> \<le> 8640000000000000" using d2 dated dated_range by simp
  have img: "YearFromTime ` ?T = event_year ` set evs"
    by (auto simp: event_year_def image_iff)
  have y1: "getFullYear (new_Date_value (Fin (Min ?T))) = Some (Min (event_year ` set evs))"
    using r1 YearFromTime_Min [OF fin nonempty]
    by (simp add: new_Date_value_def TimeClip_def getFullYear_def img)
  have y2: "getFullYear (new_Date_value (Fin (Max ?T))) = Some (Max (event_year ` set evs))"
    using r2 YearFromTime_Max [OF fin nonempty]
    by (simp add: new_Date_value_def TimeClip_def getFullYear_def img)
  show ?thesis
    by (simp only: data_window_def Let_def mn mx y1 y2 nan_plus_def option.map)
qed

lemma year_filter_dated:
  assumes "\<forall>d\<in>set evs. dated d"
  shows "year_filter p evs = Inr (filter (\<lambda>d. p (Some (event_year d))) evs)"
proof -
  have "\<forall>d\<in>set evs. Date d \<noteq> None" using assms dated_Date by fastforce
  then have "year_filter p evs = Inr (filter (\<lambda>d. p (getFullYear (the (Date d)))) evs)"
    by (rule year_filter_nonnull)
  moreover have "filter (\<lambda>d. p (getFullYear (the (Date d)))) evs =
      filter (\<lambda>d. p (Some (event_year d))) evs"
    by (rule filter_cong) (simp_all add: assms dated_year)
  ultimately show ?thesis by simp
qed

lemma in_window_years:
  "Date d \<noteq> None \<Longrightarrow>
     (nan_le (Some lo) (getFullYear (the (Date d))) \<and> nan_le (getFullYear (the (Date d))) (Some hi))
       = in_window lo hi d"
  by (cases "Date d"; cases "the (Date d)")
     (auto simp: in_window_def getFullYear_def nan_le_def split: jsdate.splits)

lemma in_window_sample:
  "in_window lo hi (sample_event (Some (Valid t))) = (lo \<le> YearFromTime t \<and> YearFromTime t \<le> hi)"
  "in_window lo hi (sample_event (Some Invalid)) = False"
  by (simp_all add: in_window_def sample_event_def)

lemma select_window_nonnull:
  assumes ne: "evs \<noteq> []" and nonnull: "\<forall>d\<in>set evs. Date d \<noteq> None"
  shows "select_window (Valid now) st evs =
     (let minDate = new_Date_ymd (Some (YearFromTime now - PreviousYear st)) (Some 0) 1;
          maxDate = new_Date_ymd (Some (YearFromTime now + FutureYear st)) (Some 0) 1;
          inside = filter (\<lambda>d. nan_le (getFullYear minDate) (getFullYear (the (Date d)))
                             \<and> nan_le (getFullYear (the (Date d))) (getFullYear maxDate)) evs
      in if inside \<noteq> [] then Inr (minDate, maxDate, inside)
         else Inr (fst (data_window evs), snd (data_window evs), evs))"
proof -
  let ?mn = "new_Date_ymd (Some (YearFromTime now - PreviousYear st)) (Some 0) 1"
  let ?mx = "new_Date_ymd (Some (YearFromTime now + FutureYear st)) (Some 0) 1"
  let ?l1 = "filter (\<lambda>d. nan_le (getFullYear ?mn) (getFullYear (the (Date d)))) evs"
  have m: "new_Date_ymd (nan_plus (getFullYear (Valid now)) (- PreviousYear st)) (Some 0) 1 = ?mn"
    by (simp add: getFullYear_def nan_plus_def)
  have M: "new_Date_ymd (nan_plus (getFullYear (Valid now)) (FutureYear st)) (Some 0) 1 = ?mx"
    by (simp add: getFullYear_def nan_plus_def)
  have f1: "year_filter (\<lambda>y. nan_le (getFullYear ?mn) y) evs = Inr ?l1"
    by (rule year_filter_nonnull [OF nonnull])
  have "\<forall>d\<in>set ?l1. Date d \<noteq> None" using nonnull by simp
  then have "year_filter (\<lambda>y. nan_le y (getFullYear ?mx)) ?l1 =
      Inr (filter (\<lambda>d. nan_le (getFullYear (the (Date d))) (getFullYear ?mx)) ?l1)"
    by (rule year_filter_nonnull)
  also have "filter (\<lambda>d. nan_le (getFullYear (the (Date d))) (getFullYear ?mx)) ?l1 =
      filter (\<lambda>d. nan_le (getFullYear ?mn) (getFullYear (the (Date d)))
                 \<and> nan_le (getFullYear (the (Date d))) (getFullYear ?mx)) evs"
    by (simp add: conj_commute)
  finally have f2: "year_filter (\<lambda>y. nan_le y (getFullYear ?mx)) ?l1 =
      Inr (filter (\<lambda>d. nan_le (getFullYear ?mn) (getFullYear (the (Date d)))
                 \<and> nan_le (getFullYear (the (Date d))) (getFullYear ?mx)) evs)" .
  show ?thesis
    using ne
    by (simp only: select_window_def Let_def m M f1 f2 ebind_def sum.case length_greater_0_conv)
       simp
qed

lemma candidate_filter:
  assumes nonnull: "\<forall>d\<in>set evs. Date d \<noteq> None"
  shows "filter (\<lambda>d. nan_le (Some lo) (getFullYear (the (Date d)))
                    \<and> nan_le (getFullYear (the (Date d))) (Some hi)) evs
         = filter (in_window lo hi) evs"
  by (rule filter_cong) (simp_all add: nonnull in_window_years)

lemma outside_filter:
  assumes nonnull: "\<forall>d\<in>set evs. Date d \<noteq> None"
    and out: "\<forall>d\<in>set evs. \<not> in_window lo hi d"
    and hi: "\<not> (0 \<le> hi \<and> hi \<le> 99)"
  shows "filter (\<lambda>d. nan_le (getFullYear (new_Date_ymd (Some lo) (Some 0) 1)) (getFullYear (the (Date d)))
                    \<and> nan_le (getFullYear (the (Date d))) (getFullYear (new_Date_ymd (Some hi) (Some 0) 1)))
           evs = []"
proof -
  {
    fix d
    assume d: "d \<in> set evs"
    assume a: "nan_le (getFullYear (new_Date_ymd (Some lo) (Some 0) 1)) (getFullYear (the (Date d)))"
      and b: "nan_le (getFullYear (the (Date d))) (getFullYear (new_Date_ymd (Some hi) (Some 0) 1))"
    from a obtain v where v: "getFullYear (the (Date d)) = Some v"
      by (cases "getFullYear (the (Date d))") (auto simp: nan_le_def split: option.splits)
    from a have "lo \<le> v"
      unfolding v candidate_year by (auto simp: nan_le_def split: if_splits)
    moreover from b have "v \<le> hi"
      unfolding v candidate_year using hi by (auto simp: nan_le_def split: if_splits)
    ultimately have "nan_le (Some lo) (getFullYear (the (Date d)))
        \<and> nan_le (getFullYear (the (Date d))) (Some hi)"
      by (simp add: v nan_le_def)
    then have "in_window lo hi d" using in_window_years [of d lo hi] nonnull d by simp
    then have False using out d by simp
  }
  then show ?thesis by (auto simp: filter_empty_conv)
qed

text \<open>
  Claim C2, as amended. Let the events be a non-empty list (already capped) with no \<^verbatim>\<open>null\<close>
  date, and let \<open>lo = currentYear - PreviousYear\<close> and \<open>hi = currentYear + FutureYear\<close>. An
  event is in the window when its date is valid and its year lies in \<open>[lo, hi]\<close>.
  If \<open>lo\<close> and \<open>hi\<close> are years that the \<^verbatim>\<open>Date\<close> constructor takes as they are and some
  event is in the window, the result is the candidate window from January 1 of \<open>lo\<close> to
  January 1 of \<open>hi\<close> with exactly the events in the window, in their order; the other
  events may have Invalid Dates.
  If no event is in the window, then, provided \<open>hi\<close> is not one of the years 0 to 99, every
  date is valid, and the least event year and the greatest event year plus one are years
  that the constructor takes as they are, the result is the window from January 1 of the
  least event year to January 1 of the greatest event year plus one, with all the events.
\<close>

theorem C2_window_selection:
  fixes now :: int and st :: settings and evs :: "TimelineData list"
  defines "lo \<equiv> YearFromTime now - PreviousYear st"
    and "hi \<equiv> YearFromTime now + FutureYear st"
  assumes ne: "evs \<noteq> []" and nonnull: "\<forall>d\<in>set evs. Date d \<noteq> None"
  shows "(plain_year lo \<and> plain_year hi \<and> (\<exists>d\<in>set evs. in_window lo hi d) \<longrightarrow>
            select_window (Valid now) st evs = Inr (Jan1 lo, Jan1 hi, filter (in_window lo hi) evs))
       \<and> ((\<forall>d\<in>set evs. \<not> in_window lo hi d)
            \<and> \<not> (0 \<le> hi \<and> hi \<le> 99)
            \<and> (\<forall>d\<in>set evs. dated d)
            \<and> plain_year (Min (event_year ` set evs))
            \<and> plain_year (Max (event_year ` set evs) + 1) \<longrightarrow>
            select_window (Valid now) st evs =
              Inr (Jan1 (Min (event_year ` set evs)), Jan1 (Max (event_year ` set evs) + 1), evs))"
proof (intro conjI impI)
  note sw = select_window_nonnull [OF ne nonnull, of now st, folded lo_def hi_def]
  {
    assume h: "plain_year lo \<and> plain_year hi \<and> (\<exists>d\<in>set evs. in_window lo hi d)"
    then have "filter (in_window lo hi) evs \<noteq> []" by (simp add: filter_empty_conv)
    then show "select_window (Valid now) st evs = Inr (Jan1 lo, Jan1 hi, filter (in_window lo hi) evs)"
      unfolding sw Let_def
      using h by (simp add: new_Date_ymd_Jan1 getFullYear_Jan1 candidate_filter [OF nonnull])
  }
  {
    assume h: "(\<forall>d\<in>set evs. \<not> in_window lo hi d)
            \<and> \<not> (0 \<le> hi \<and> hi \<le> 99)
            \<and> (\<forall>d\<in>set evs. dated d)
            \<and> plain_year (Min (event_year ` set evs))
            \<and> plain_year (Max (event_year ` set evs) + 1)"
    then have e: "filter (\<lambda>d. nan_le (getFullYear (new_Date_ymd (Some lo) (Some 0) 1)) (getFullYear (the (Date d)))
                    \<and> nan_le (getFullYear (the (Date d))) (getFullYear (new_Date_ymd (Some hi) (Some 0) 1)))
           evs = []"
      using outside_filter [OF nonnull, of lo hi] by blast
    from h have dated: "\<forall>d\<in>set evs. dated d" by simp
    show "select_window (Valid now) st evs =
              Inr (Jan1 (Min (event_year ` set evs)), Jan1 (Max (event_year ` set evs) + 1), evs)"
      unfolding sw Let_def e
      using h by (simp add: data_window_years [OF ne dated] new_Date_ymd_Jan1)
  }
qed

lemma YearFromTime_2024: "YearFromTime 1704067200000 = 2024"
  by code_simp
lemma YearFromTime_2023: "YearFromTime 1689379200000 = 2023"
  by code_simp
lemma YearFromTime_2022: "YearFromTime 1646092800000 = 2022"
  by code_simp
lemma YearFromTime_2021: "YearFromTime 1635724800000 = 2021"
  by code_simp
lemma YearFromTime_2012: "YearFromTime 1341100800000 = 2012"
  by code_simp
lemma YearFromTime_2010: "YearFromTime 1262304000000 = 2010"
  by code_simp

lemma sample_event_year: "event_year (sample_event (Some (Valid t))) = YearFromTime t"
  by (simp add: event_year_def event_time_def sample_event_def)

lemma sample_event_dated: "\<bar>t\<bar> \<le> 8640000000000000 \<Longrightarrow> dated (sample_event (Some (Valid t)))"
  by (simp add: dated_def sample_event_def)

theorem C2_window_selection_witness:
  "select_window (Valid 1704067200000) \<lparr>PreviousYear = 1, FutureYear = 8, layout = LayoutNone\<rparr>
     [sample_event (Some (Valid 1646092800000)), sample_event (Some Invalid),
      sample_event (Some (Valid 1689379200000)), sample_event (Some (Valid 1635724800000))] =
     Inr (Jan1 2023, Jan1 2032, [sample_event (Some (Valid 1689379200000))])
   \<and> select_window (Valid 1704067200000) \<lparr>PreviousYear = 1, FutureYear = 8, layout = LayoutNone\<rparr>
     [sample_event (Some (Valid 1341100800000)), sample_event (Some (Valid 1262304000000))] =
     Inr (Jan1 2010, Jan1 2013,
          [sample_event (Some (Valid 1341100800000)), sample_event (Some (Valid 1262304000000))])"
proof -
  let ?st = "\<lparr>PreviousYear = 1, FutureYear = 8, layout = LayoutNone\<rparr>"
  let ?a = "[sample_event (Some (Valid 1646092800000)), sample_event (Some Invalid),
      sample_event (Some (Valid 1689379200000)), sample_event (Some (Valid 1635724800000))]"
  let ?b = "[sample_event (Some (Valid 1341100800000)), sample_event (Some (Valid 1262304000000))]"
  let ?lo = "YearFromTime 1704067200000 - PreviousYear ?st"
  let ?hi = "YearFromTime 1704067200000 + FutureYear ?st"
  note years = sample_event_year in_window_sample YearFromTime_2024 YearFromTime_2023
    YearFromTime_2022 YearFromTime_2021 YearFromTime_2012 YearFromTime_2010
  have nea: "?a \<noteq> []" and neb: "?b \<noteq> []" by simp_all
  have na: "\<forall>d\<in>set ?a. Date d \<noteq> None" and nb: "\<forall>d\<in>set ?b. Date d \<noteq> None"
    by (simp_all add: sample_event_def)
  have ina: "plain_year ?lo \<and> plain_year ?hi \<and> (\<exists>d\<in>set ?a. in_window ?lo ?hi d)"
    by (simp add: years plain_year_def)
  have outb: "(\<forall>d\<in>set ?b. \<not> in_window ?lo ?hi d) \<and> \<not> (0 \<le> ?hi \<and> ?hi \<le> 99)
      \<and> (\<forall>d\<in>set ?b. dated d)
      \<and> plain_year (Min (event_year ` set ?b)) \<and> plain_year (Max (event_year ` set ?b) + 1)"
    by (simp add: years plain_year_def sample_event_dated)
  have "select_window (Valid 1704067200000) ?st ?a =
      Inr (Jan1 ?lo, Jan1 ?hi, filter (in_window ?lo ?hi) ?a)"
    by (rule mp [OF conjunct1 [OF C2_window_selection [OF nea na]] ina])
  then have A: "select_window (Valid 1704067200000) ?st ?a =
     Inr (Jan1 2023, Jan1 2032, [sample_event (Some (Valid 1689379200000))])"
    by (simp add: years)
  have "select_window (Valid 1704067200000) ?st ?b =
      Inr (Jan1 (Min (event_year ` set ?b)), Jan1 (Max (event_year ` set ?b) + 1), ?b)"
    by (rule mp [OF conjunct2 [OF C2_window_selection [OF neb nb]] outb])
  then have B: "select_window (Valid 1704067200000) ?st ?b = Inr (Jan1 2010, Jan1 2013, ?b)"
    by (simp add: years)
  show ?thesis by (intro conjI A B)
qed

lemma sample_Jan1_year: "getFullYear (the (Date (sample_event (Some (Jan1 y))))) = Some y"
  by (simp add: sample_event_def getFullYear_Jan1)

lemma sample_Jan1_dated: "plain_year y \<Longrightarrow> dated (sample_event (Some (Jan1 y)))"
  using plain_year_in_range [of y] by (simp add: Jan1_def dated_def sample_event_def)

lemma sample_Jan1_event_year: "event_year (sample_event (Some (Jan1 y))) = y"
  by (simp add: Jan1_def sample_event_year YearFromTime_start)

text \<open>
  Claim C2 as stated fails in these ways. A date that is not \<^verbatim>\<open>null\<close> may be an Invalid
  Date: with one such event and one event of 2010, outside the candidate window
  \<open>[2023, 2032]\<close>, the minimum and maximum over the dates are \<^verbatim>\<open>NaN\<close> and the selector
  returns a pair of Invalid Dates, not the window from January 1 of 2010. A candidate year
  may fall in 0 to 99, which the constructor reads as 1900 to 1999: with the current year
  2024 and \<open>PreviousYear = 2000\<close> the lower candidate year is 24, read as 1924, and an event
  of the year 1000 lies in the claimed window \<open>[24, 2032]\<close> but is filtered out, so that the
  selector returns the window of the data instead of the candidate window; with
  \<open>PreviousYear = 3000\<close> and \<open>FutureYear = - 2000\<close> the upper candidate year is 24, and the
  same event lies outside the claimed window \<open>[- 976, 24]\<close> but is kept, so that the selector
  returns a candidate window, from the year - 976 to the year 1924, instead of the window of
  the data. And an event year may fall in 0 to 99: one event of the year 50, outside the
  candidate window, gives the window from January 1 of 1950 to January 1 of 1951.
\<close>

theorem C2_candidate_window_counterexample:
  "Date (sample_event (Some Invalid)) \<noteq> None
   \<and> event_year (sample_event (Some (Valid 1262304000000))) = 2010
   \<and> select_window (Valid 1704067200000) \<lparr>PreviousYear = 1, FutureYear = 8, layout = LayoutNone\<rparr>
     [sample_event (Some Invalid), sample_event (Some (Valid 1262304000000))] =
     Inr (Invalid, Invalid, [sample_event (Some Invalid), sample_event (Some (Valid 1262304000000))])
   \<and> Jan1 2010 \<noteq> Invalid
   \<and> select_window (Valid 1704067200000) \<lparr>PreviousYear = 2000, FutureYear = 8, layout = LayoutNone\<rparr>
     [sample_event (Some (Jan1 1000))] =
     Inr (Jan1 1000, Jan1 1001, [sample_event (Some (Jan1 1000))])
   \<and> YearFromTime 1704067200000 - 2000 \<le> event_year (sample_event (Some (Jan1 1000)))
   \<and> event_year (sample_event (Some (Jan1 1000))) \<le> YearFromTime 1704067200000 + 8
   \<and> Jan1 1000 \<noteq> Jan1 (YearFromTime 1704067200000 - 2000)
   \<and> select_window (Valid 1704067200000) \<lparr>PreviousYear = 3000, FutureYear = - 2000, layout = LayoutNone\<rparr>
     [sample_event (Some (Jan1 1000))] =
     Inr (Jan1 (- 976), Jan1 1924, [sample_event (Some (Jan1 1000))])
   \<and> \<not> event_year (sample_event (Some (Jan1 1000))) \<le> YearFromTime 1704067200000 + (- 2000)
   \<and> Jan1 (- 976) \<noteq> Jan1 1000
   \<and> select_window (Valid 1704067200000) \<lparr>PreviousYear = 1, FutureYear = 8, layout = LayoutNone\<rparr>
     [sample_event (Some (Jan1 50))] =
     Inr (Jan1 1950, Jan1 1951, [sample_event (Some (Jan1 50))])
   \<and> event_year (sample_event (Some (Jan1 50))) = 50
   \<and> Jan1 1950 \<noteq> Jan1 50"
proof -
  let ?now = "1704067200000 :: int"
  let ?e = "sample_event (Some (Jan1 1000))"
  let ?f = "sample_event (Some (Jan1 50))"
  let ?i = "sample_event (Some Invalid)"
  let ?o = "sample_event (Some (Valid 1262304000000))"
  have ey: "event_year ?e = 1000" and fy: "event_year ?f = 50"
    by (simp_all add: sample_Jan1_event_year)
  have oy: "event_year ?o = 2010" by (simp add: sample_event_year YearFromTime_2010)
  have ne: "[?e] \<noteq> []" "[?f] \<noteq> []" "[?i, ?o] \<noteq> []" by simp_all
  have nn: "\<forall>d\<in>set [?e]. Date d \<noteq> None" "\<forall>d\<in>set [?f]. Date d \<noteq> None"
      "\<forall>d\<in>set [?i, ?o]. Date d \<noteq> None"
    by (simp_all add: sample_event_def)
  have de: "\<forall>d\<in>set [?e]. dated d"
    by (simp add: sample_Jan1_dated plain_year_def)
  have df: "\<forall>d\<in>set [?f]. dated d"
    by (simp add: Jan1_def dated_def sample_event_def DayFromYear_def msPerDay_def)
  have we: "data_window [?e] = (Jan1 1000, Jan1 1001)"
    by (simp add: data_window_years [OF _ de] ey new_Date_ymd_Jan1 plain_year_def)
  have wf: "data_window [?f] = (Jan1 1950, Jan1 1951)"
    using new_Date_ymd_two_digits [of 50] new_Date_ymd_two_digits [of 51]
    by (simp add: data_window_years [OF _ df] fy)
  have wi: "data_window [?i, ?o] = (Invalid, Invalid)"
    by (simp add: data_window_def sample_event_def ToNumber_def getTime_def Math_min_def Math_max_def
        new_Date_value_def TimeClip_def getFullYear_def new_Date_ymd_def nan_plus_def)
  have gi: "getFullYear (the (Date ?i)) = None" "getFullYear (the (Date ?o)) = Some 2010"
    by (simp_all add: sample_event_def getFullYear_def YearFromTime_2010)
  have 1: "select_window (Valid ?now) \<lparr>PreviousYear = 2000, FutureYear = 8, layout = LayoutNone\<rparr> [?e]
      = Inr (Jan1 1000, Jan1 1001, [?e])"
    by (subst select_window_nonnull [OF ne(1) nn(1)])
       (simp add: Let_def YearFromTime_2024 candidate_year plain_year_def sample_Jan1_year nan_le_def we)
  have 2: "Jan1 1000 \<noteq> Jan1 (YearFromTime ?now - 2000)"
    by (simp add: Jan1_inject YearFromTime_2024)
  have 3: "Date ?i \<noteq> None" by (simp add: sample_event_def)
  have 4: "select_window (Valid ?now) \<lparr>PreviousYear = 1, FutureYear = 8, layout = LayoutNone\<rparr> [?i, ?o]
      = Inr (Invalid, Invalid, [?i, ?o])"
    by (subst select_window_nonnull [OF ne(3) nn(3)])
       (simp add: Let_def YearFromTime_2024 candidate_year plain_year_def gi nan_le_def wi)
  have 5: "Jan1 2010 \<noteq> Invalid" by (simp add: Jan1_def)
  have 6: "YearFromTime ?now - 2000 \<le> event_year ?e"
    and 7: "event_year ?e \<le> YearFromTime ?now + 8"
    and 9: "\<not> event_year ?e \<le> YearFromTime ?now + (- 2000)"
    by (simp_all add: ey YearFromTime_2024)
  have 8: "select_window (Valid ?now) \<lparr>PreviousYear = 3000, FutureYear = - 2000, layout = LayoutNone\<rparr> [?e]
      = Inr (Jan1 (- 976), Jan1 1924, [?e])"
    using new_Date_ymd_two_digits [of 24] new_Date_ymd_Jan1 [of "- 976"]
    by (subst select_window_nonnull [OF ne(1) nn(1)])
       (simp add: Let_def YearFromTime_2024 plain_year_def getFullYear_Jan1 sample_Jan1_year nan_le_def)
  have 10: "Jan1 (- 976) \<noteq> Jan1 1000" and 13: "Jan1 1950 \<noteq> Jan1 50"
    by (simp_all add: Jan1_inject)
  have 11: "select_window (Valid ?now) \<lparr>PreviousYear = 1, FutureYear = 8, layout = LayoutNone\<rparr> [?f]
      = Inr (Jan1 1950, Jan1 1951, [?f])"
    by (subst select_window_nonnull [OF ne(2) nn(2)])
       (simp add: Let_def YearFromTime_2024 candidate_year plain_year_def sample_Jan1_year nan_le_def wf)
  show ?thesis by (intro conjI 3 oy 4 5 1 6 7 2 8 9 10 11 fy 13)
qed

section \<open>Connector lines\<close>

text \<open>Where the scale gives \<^verbatim>\<open>NaN\<close>, the callbacks of \<^verbatim>\<open>x1\<close> and \<^verbatim>\<open>x2\<close> return 0, whatever
  the scale, and so does every line that \<^verbatim>\<open>renderTimeRangeLines\<close> returns.\<close>

lemma line_x_clamped:
  "xScale (Date d) = None \<Longrightarrow> line_x1 xScale d = 0 \<and> line_x2 xScale d = 0"
  by (simp add: line_x1_def line_x2_def)

lemma lines_x_clamped:
  assumes "renderTimeRangeLines xScale table evs = Inr ls" and "i < length evs"
    and "xScale (Date (evs ! i)) = None"
  shows "x1 (ls ! i) = 0 \<and> x2 (ls ! i) = 0"
proof -
  have "\<exists>c. ls ! i = \<lparr>x1 = line_x1 xScale (evs ! i), y1 = line_y1 (0 + i),
       x2 = line_x2 xScale (evs ! i), y2 = line_y2 (0 + i), stroke = c\<rparr>"
    using assms(1,2) unfolding renderTimeRangeLines_def
    using lookup_color_Inr_each [where g = "\<lambda>d i c. \<lparr>x1 = line_x1 xScale d, y1 = line_y1 i,
       x2 = line_x2 xScale d, y2 = line_y2 i, stroke = c\<rparr>" and k = 0 and i = i and evs = evs
       and ls = ls and table = table]
    by blast
  then show ?thesis
    using line_x_clamped [where xScale = xScale and d = "evs ! i", OF assms(3)] by auto
qed

text \<open>The stroke callback of the same chain reads \<^verbatim>\<open>.color\<close> of the entry that \<^verbatim>\<open>find\<close>
  returns. The year of an Invalid Date is \<^verbatim>\<open>NaN\<close>, which is equal to no year: no entry is
  found, and the read throws, whatever the scale and the colour table.\<close>

lemma lookup_color_invalid:
  "Date d = Some Invalid \<Longrightarrow> lookup_color table d = Inl TypeError"
proof -
  have "find (\<lambda>c. False) table = None" by (simp add: find_None_iff)
  then show "Date d = Some Invalid \<Longrightarrow> lookup_color table d = Inl TypeError"
    by (simp add: lookup_color_def getFullYear_def nan_eq_def)
qed

lemma lines_invalid_date:
  assumes "d \<in> set evs" and "Date d = Some Invalid"
  shows "renderTimeRangeLines xScale table evs = Inl TypeError"
  unfolding renderTimeRangeLines_def
  by (rule each_indexed_Inl [OF assms(1)]) (simp add: lookup_color_invalid [OF assms(2)] ebind_def)

lemma extract_unparsable:
  "extract_rows (\<lambda>s. NaN) [\<lparr>roles = [''Company'']\<rparr>, \<lparr>roles = [''Date'']\<rparr>] [[CStr ''A'', CStr ''soon'']]
     = Inr [sample_event (Some Invalid)]"
  by (simp add: extract_rows_def cap_def CONVERTER_def company_date_indices make_dp_def guarded_def
      ebind_def row_at_def new_Date_value_def TimeClip_def sample_event_def)

lemma data_window_invalid:
  "data_window [sample_event (Some Invalid)] = (Invalid, Invalid)"
  by (simp add: data_window_def sample_event_def ToNumber_def getTime_def Math_min_def Math_max_def
        new_Date_value_def TimeClip_def getFullYear_def new_Date_ymd_def nan_plus_def)

lemma select_window_invalid:
  "select_window (Jan1 2024) \<lparr>PreviousYear = 1, FutureYear = 8, layout = LayoutNone\<rparr>
     [sample_event (Some Invalid)] = Inr (Invalid, Invalid, [sample_event (Some Invalid)])"
proof -
  have n: "\<forall>d\<in>set [sample_event (Some Invalid)]. Date d \<noteq> None" by (simp add: sample_event_def)
  have g: "getFullYear (the (Date (sample_event (Some Invalid)))) = None"
    by (simp add: sample_event_def getFullYear_def)
  show ?thesis
    unfolding Jan1_def
    by (subst select_window_nonnull [OF _ n])
       (simp_all add: Let_def YearFromTime_start g nan_le_def data_window_invalid)
qed

text \<open>
  Claim C10: for an event at which the scale gives \<^verbatim>\<open>NaN\<close> (its date is invalid, or outside
  the domain of the scale), the connector-line computation is claimed to clamp both
  horizontal ends of the line to 0 instead of propagating \<^verbatim>\<open>NaN\<close> or crashing. The callbacks
  of \<^verbatim>\<open>x1\<close> and \<^verbatim>\<open>x2\<close> do return 0 there, but the stroke callback of the same chain throws for
  every event with an Invalid Date. A row with the unparsable date cell \<^verbatim>\<open>soon\<close> gives such
  an event: it passes through extraction, it is outside the candidate window, the window of
  the data is a pair of Invalid Dates and the colour table is empty; both ends of its line
  are clamped to 0, and then the read of \<^verbatim>\<open>colorData.color\<close> throws a TypeError, which ends
  \<^verbatim>\<open>update\<close>.
\<close>

theorem C10_invalid_date_throws:
  "extract_rows (Date_parse sample_platform) [\<lparr>roles = [''Company'']\<rparr>, \<lparr>roles = [''Date'']\<rparr>]
       [[CStr ''A'', CStr ''soon'']] = Inr [sample_event (Some Invalid)]
   \<and> select_window (currentDate sample_platform) \<lparr>PreviousYear = 1, FutureYear = 8, layout = LayoutNone\<rparr>
       [sample_event (Some Invalid)] = Inr (Invalid, Invalid, [sample_event (Some Invalid)])
   \<and> getColorDataByYear Invalid Invalid = []
   \<and> sample_scale (Date (sample_event (Some Invalid))) = None
   \<and> line_x1 sample_scale (sample_event (Some Invalid)) = 0
   \<and> line_x2 sample_scale (sample_event (Some Invalid)) = 0
   \<and> renderTimeRangeLines sample_scale (getColorDataByYear Invalid Invalid)
        [sample_event (Some Invalid)] = Inl TypeError
   \<and> update sample_platform \<lparr>PreviousYear = 1, FutureYear = 8, layout = LayoutNone\<rparr>
        [\<lparr>roles = [''Company'']\<rparr>, \<lparr>roles = [''Date'']\<rparr>] [[CStr ''A'', CStr ''soon'']] = Inl TypeError"
proof -
  let ?e = "sample_event (Some Invalid)"
  let ?st = "\<lparr>PreviousYear = 1, FutureYear = 8, layout = LayoutNone\<rparr>"
  have dp: "Date_parse sample_platform = (\<lambda>s. NaN)" and cd: "currentDate sample_platform = Jan1 2024"
    and sc: "\<And>ax. scaleTime sample_platform ax = sample_scale"
    by (simp_all add: sample_platform_def)
  have d: "Date ?e = Some Invalid" by (simp add: sample_event_def)
  have 1: "extract_rows (Date_parse sample_platform) [\<lparr>roles = [''Company'']\<rparr>, \<lparr>roles = [''Date'']\<rparr>]
       [[CStr ''A'', CStr ''soon'']] = Inr [?e]"
    by (simp only: dp extract_unparsable)
  have 2: "select_window (currentDate sample_platform) ?st [?e] = Inr (Invalid, Invalid, [?e])"
    by (simp only: cd select_window_invalid)
  have 3: "getColorDataByYear Invalid Invalid = []"
    by (simp add: getColorDataByYear_def getFullYear_def)
  have 4: "sample_scale (Date ?e) = None" by (simp add: d sample_scale_def)
  have 5: "line_x1 sample_scale ?e = 0" and 6: "line_x2 sample_scale ?e = 0"
    using line_x_clamped [where xScale = sample_scale and d = "?e", OF 4] by simp_all
  have 7: "\<And>table. renderTimeRangeLines sample_scale table [?e] = Inl TypeError"
    by (rule lines_invalid_date [OF _ d]) simp
  have 8: "update sample_platform ?st
        [\<lparr>roles = [''Company'']\<rparr>, \<lparr>roles = [''Date'']\<rparr>] [[CStr ''A'', CStr ''soon'']] = Inl TypeError"
    unfolding update_def Let_def
    by (simp add: 1 2 sc ebind_def renderHeaderAndFooter_def 7)
  show ?thesis by (intro conjI 1 2 3 4 5 6 7 8)
qed

section \<open>Axis granularity\<close>

lemma round_le_1: "Math_round (of_int n / (36525 / 100)) \<le> 1 \<longleftrightarrow> n \<le> 547"
proof -
  have "Math_round (of_int n / (36525 / 100)) \<le> 1 \<longleftrightarrow>
      (of_int n / (36525 / 100) + 1 / 2 :: rat) < of_int 2"
    unfolding Math_round_def using floor_less_iff [of "of_int n / (36525 / 100) + 1 / 2 :: rat" 2]
    by simp
  also have "\<dots> \<longleftrightarrow> (of_int (200 * n) :: rat) < of_int 109575"
    by (simp add: field_simps)
  also have "\<dots> \<longleftrightarrow> 200 * n < 109575" by (simp only: of_int_less_iff)
  also have "\<dots> \<longleftrightarrow> n \<le> 547" by presburger
  finally show ?thesis .
qed

lemma round_ge_m1: "- 1 \<le> Math_round (of_int n / (36525 / 100)) \<longleftrightarrow> - 547 \<le> n"
proof -
  have "- 1 \<le> Math_round (of_int n / (36525 / 100)) \<longleftrightarrow>
      (of_int (- 1) :: rat) \<le> of_int n / (36525 / 100) + 1 / 2"
    unfolding Math_round_def by (simp only: le_floor_iff)
  also have "\<dots> \<longleftrightarrow> (of_int (- 4383) :: rat) \<le> of_int (8 * n)"
    by (simp add: field_simps) linarith
  also have "\<dots> \<longleftrightarrow> - 4383 \<le> 8 * n" by (simp only: of_int_le_iff)
  also have "\<dots> \<longleftrightarrow> - 547 \<le> n" by presburger
  finally show ?thesis .
qed

lemma days_quotient:
  "(of_int (ka * msPerDay - kb * msPerDay) :: rat) / 1000 / (60 * 60 * 24) = of_int (ka - kb)"
  by (simp add: msPerDay_def field_simps)

lemma diff_years_midnight:
  "diff_years (Valid (ka * msPerDay)) (Valid (kb * msPerDay)) =
     Some \<bar>Math_round (of_int (ka - kb) / (36525 / 100))\<bar>"
  unfolding diff_years_def getTime_def Let_def
  by (simp only: jsdate.case jsnum.case days_quotient)

lemma years_span_midnight:
  "years_span (Valid (ka * msPerDay)) (Valid (kb * msPerDay)) =
     Some (Math_round (of_int \<bar>kb - ka\<bar> / (36525 / 100)))"
proof -
  have "\<bar>of_int (kb * msPerDay - ka * msPerDay) :: rat\<bar> / of_int msPerDay = of_int \<bar>kb - ka\<bar>"
    by (simp add: msPerDay_def field_simps abs_if)
  then show ?thesis
    unfolding years_span_def by (simp only: jsdate.case)
qed

lemma month_iff_midnight:
  "nan_le (diff_years (Valid (ka * msPerDay)) (Valid (kb * msPerDay))) (Some 1) \<longleftrightarrow>
   nan_le (years_span (Valid (ka * msPerDay)) (Valid (kb * msPerDay))) (Some 1)"
proof -
  have "\<bar>Math_round (of_int (ka - kb) / (36525 / 100))\<bar> \<le> 1 \<longleftrightarrow> - 547 \<le> ka - kb \<and> ka - kb \<le> 547"
    using round_le_1 [of "ka - kb"] round_ge_m1 [of "ka - kb"] by (simp add: abs_le_iff) linarith
  moreover have "Math_round (of_int \<bar>kb - ka\<bar> / (36525 / 100)) \<le> 1 \<longleftrightarrow> \<bar>kb - ka\<bar> \<le> 547"
    by (rule round_le_1)
  ultimately show ?thesis
    by (simp add: diff_years_midnight years_span_midnight nan_le_def) linarith
qed


lemma midnight_cases:
  assumes "midnight d"
  obtains "d = Invalid" | k where "d = Valid (k * msPerDay)"
proof (cases d)
  case Invalid
  then show ?thesis using that by simp
next
  case (Valid t)
  then have "t mod msPerDay = 0" using assms by (simp add: midnight_def)
  then have "t = (t div msPerDay) * msPerDay" by (simp add: mod_eq_0_iff_dvd)
  then show ?thesis using that Valid by blast
qed

lemma month_iff:
  assumes "midnight minDate" and "midnight maxDate"
  shows "nan_le (diff_years minDate maxDate) (Some 1) \<longleftrightarrow>
         nan_le (years_span minDate maxDate) (Some 1)"
proof (rule midnight_cases [OF assms(1)])
  assume "minDate = Invalid"
  then show ?thesis by (simp add: diff_years_def years_span_def getTime_def nan_le_def)
next
  fix ka assume a: "minDate = Valid (ka * msPerDay)"
  show ?thesis
  proof (rule midnight_cases [OF assms(2)])
    assume "maxDate = Invalid"
    then show ?thesis
      by (simp add: a diff_years_def years_span_def getTime_def nan_le_def)
  next
    fix kb assume "maxDate = Valid (kb * msPerDay)"
    then show ?thesis using a by (simp only: month_iff_midnight)
  qed
qed

lemma midnight_Jan1: "midnight (Jan1 y)"
  by (simp add: midnight_def Jan1_def)

lemma one_year_is_month: "nan_le (diff_years (Jan1 y) (Jan1 (y + 1))) (Some 1)"
proof -
  have "DayFromYear y - DayFromYear (y + 1) = - 365 \<or> DayFromYear y - DayFromYear (y + 1) = - 366"
    by (simp add: DayFromYear_Suc DaysInYear_def)
  then have "\<bar>Math_round (of_int (DayFromYear y - DayFromYear (y + 1)) / (36525 / 100))\<bar> \<le> 1"
    using round_le_1 [of "DayFromYear y - DayFromYear (y + 1)"]
      round_ge_m1 [of "DayFromYear y - DayFromYear (y + 1)"]
    by (auto simp: abs_le_iff)
  then show ?thesis
    unfolding Jan1_def by (simp only: diff_years_midnight nan_le_def option.case)
qed

lemma getMonth_Jan1: "getMonth (Jan1 y) = Some 0"
  by (simp add: getMonth_def Jan1_def MonthFromTime_def DayWithinYear_def Day_of_days
      YearFromTime_start month_start_def)

lemma MakeDay_December: "MakeDay y (- 1) 1 = DayFromYear y - 31"
proof -
  have "DayFromYear y = DayFromYear (y - 1) + DaysInYear (y - 1)"
    using DayFromYear_Suc [of "y - 1"] by simp
  then show ?thesis
    by (simp add: MakeDay_def month_start_def InLeapYear_def DaysInYear_def)
qed

lemma MakeDay_February: "MakeDay y 1 1 = DayFromYear y + 31"
  by (simp add: MakeDay_def month_start_def)

lemma new_Date_ymd_plain:
  assumes "plain_year y" and "\<bar>MakeDay y m dt * msPerDay\<bar> \<le> 8640000000000000"
  shows "new_Date_ymd (Some y) (Some m) dt = Valid (MakeDay y m dt * msPerDay)"
proof -
  have "(0 \<le> y \<and> y \<le> 99) = False" using assms(1) by (simp add: plain_year_def)
  then show ?thesis
    using assms(2)
    by (simp only: new_Date_ymd_def TimeClip_def Let_def option.case jsnum.case if_False if_True)
qed

lemma plain_year_days:
  assumes "plain_year y"
  shows "- 99999744 \<le> DayFromYear y" and "DayFromYear y \<le> 99999744"
  using DayFromYear_mono [of "- 271820" y] DayFromYear_mono [of y 275760] assms
  by (simp_all add: plain_year_def DayFromYear_bottom DayFromYear_top)

lemma one_year_domain:
  assumes "plain_year y" and "plain_year (y + 1)"
  shows "new_Date_ymd (getFullYear (Jan1 y)) (nan_plus (getMonth (Jan1 y)) (- 1)) 1 =
           Valid ((DayFromYear y - 31) * msPerDay)"
    and "new_Date_ymd (getFullYear (Jan1 (y + 1))) (nan_plus (getMonth (Jan1 (y + 1))) 1) 1 =
           Valid ((DayFromYear (y + 1) + 31) * msPerDay)"
proof -
  have r1: "\<bar>MakeDay y (- 1) 1 * msPerDay\<bar> \<le> 8640000000000000"
    using plain_year_days [OF assms(1)] by (simp add: MakeDay_December msPerDay_def abs_le_iff)
  have r2: "\<bar>MakeDay (y + 1) 1 1 * msPerDay\<bar> \<le> 8640000000000000"
    using plain_year_days [OF assms(2)] by (simp add: MakeDay_February msPerDay_def abs_le_iff)
  show "new_Date_ymd (getFullYear (Jan1 y)) (nan_plus (getMonth (Jan1 y)) (- 1)) 1 =
           Valid ((DayFromYear y - 31) * msPerDay)"
    using new_Date_ymd_plain [OF assms(1) r1]
    by (simp add: getFullYear_Jan1 getMonth_Jan1 nan_plus_def MakeDay_December)
  show "new_Date_ymd (getFullYear (Jan1 (y + 1))) (nan_plus (getMonth (Jan1 (y + 1))) 1) 1 =
           Valid ((DayFromYear (y + 1) + 31) * msPerDay)"
    using new_Date_ymd_plain [OF assms(2) r2]
    by (simp add: getFullYear_Jan1 getMonth_Jan1 nan_plus_def MakeDay_February)
qed

text \<open>
  Claim C5. For a window of two dates at midnight, as every window of \<^verbatim>\<open>update\<close> is, the axis
  has monthly ticks exactly when the span in days divided by 365.25 and rounded is at most
  1; then the domain runs from the first of the month before \<open>minDate\<close> to the first of the
  month after \<open>maxDate\<close>. Otherwise the ticks are yearly and the domain is the window itself.
  A window from January 1 of a year to January 1 of the next has monthly ticks, and its
  domain runs from December 1 before it (31 days earlier) to February 1 after it (31 days
  later), for years that the constructor takes as they are.
\<close>

theorem C5_axis_granularity:
  assumes "midnight minDate" and "midnight maxDate"
  shows "(x_ticks (renderXandYAxis minDate maxDate w) = Month \<longleftrightarrow>
            nan_le (years_span minDate maxDate) (Some 1))
       \<and> (x_ticks (renderXandYAxis minDate maxDate w) = Month \<longrightarrow>
            x_domain (renderXandYAxis minDate maxDate w) =
              (new_Date_ymd (getFullYear minDate) (nan_plus (getMonth minDate) (- 1)) 1,
               new_Date_ymd (getFullYear maxDate) (nan_plus (getMonth maxDate) 1) 1))
       \<and> (x_ticks (renderXandYAxis minDate maxDate w) \<noteq> Month \<longrightarrow>
            x_ticks (renderXandYAxis minDate maxDate w) = Year
            \<and> x_domain (renderXandYAxis minDate maxDate w) = (minDate, maxDate))
       \<and> x_ticks (renderXandYAxis (Jan1 y) (Jan1 (y + 1)) w) = Month
       \<and> (plain_year y \<and> plain_year (y + 1) \<longrightarrow>
            x_domain (renderXandYAxis (Jan1 y) (Jan1 (y + 1)) w) =
              (Valid ((DayFromYear y - 31) * msPerDay), Valid ((DayFromYear (y + 1) + 31) * msPerDay)))"
proof (intro conjI impI)
  show "x_ticks (renderXandYAxis minDate maxDate w) = Month \<longleftrightarrow>
            nan_le (years_span minDate maxDate) (Some 1)"
    using month_iff [OF assms] by (simp add: renderXandYAxis_def Let_def)
  show "x_ticks (renderXandYAxis (Jan1 y) (Jan1 (y + 1)) w) = Month"
    using one_year_is_month [of y] by (simp add: renderXandYAxis_def Let_def)
next
  assume "x_ticks (renderXandYAxis minDate maxDate w) = Month"
  then show "x_domain (renderXandYAxis minDate maxDate w) =
              (new_Date_ymd (getFullYear minDate) (nan_plus (getMonth minDate) (- 1)) 1,
               new_Date_ymd (getFullYear maxDate) (nan_plus (getMonth maxDate) 1) 1)"
    by (simp add: renderXandYAxis_def Let_def split: if_splits)
next
  assume h: "x_ticks (renderXandYAxis minDate maxDate w) \<noteq> Month"
  then show "x_ticks (renderXandYAxis minDate maxDate w) = Year"
    by (simp add: renderXandYAxis_def Let_def split: if_splits)
  from h show "x_domain (renderXandYAxis minDate maxDate w) = (minDate, maxDate)"
    by (simp add: renderXandYAxis_def Let_def split: if_splits)
next
  assume "plain_year y \<and> plain_year (y + 1)"
  then show "x_domain (renderXandYAxis (Jan1 y) (Jan1 (y + 1)) w) =
              (Valid ((DayFromYear y - 31) * msPerDay), Valid ((DayFromYear (y + 1) + 31) * msPerDay))"
    using one_year_is_month [of y] one_year_domain [of y]
    by (simp add: renderXandYAxis_def Let_def)
qed

lemma Jan1_2021: "Jan1 2021 = Valid 1609459200000"
  by (simp add: Jan1_def DayFromYear_def msPerDay_def)
lemma Jan1_2023: "Jan1 2023 = Valid 1672531200000"
  by (simp add: Jan1_def DayFromYear_def msPerDay_def)

theorem C5_axis_granularity_witness:
  "midnight (Jan1 2021) \<and> midnight (Jan1 2023)
   \<and> x_ticks (renderXandYAxis (Jan1 2021) (Jan1 2023) 720) = Year
   \<and> x_domain (renderXandYAxis (Jan1 2021) (Jan1 2023) 720) = (Jan1 2021, Jan1 2023)
   \<and> years_span (Jan1 2021) (Jan1 2023) = Some 2
   \<and> x_ticks (renderXandYAxis (Jan1 2021) (Jan1 (2021 + 1)) 720) = Month
   \<and> x_domain (renderXandYAxis (Jan1 2021) (Jan1 (2021 + 1)) 720) =
        (Valid 1606780800000, Valid 1643673600000)"
proof -
  have m: "midnight (Jan1 2021)" "midnight (Jan1 2023)" by (rule midnight_Jan1)+
  note T = C5_axis_granularity [OF m, of 720 2021]
  have span: "years_span (Jan1 2021) (Jan1 2023) = Some 2"
    by code_simp
  then have n: "\<not> nan_le (years_span (Jan1 2021) (Jan1 2023)) (Some 1)"
    by (simp add: nan_le_def)
  have t: "x_ticks (renderXandYAxis (Jan1 2021) (Jan1 2023) 720) \<noteq> Month"
    using conjunct1 [OF T] n by blast
  have y: "x_ticks (renderXandYAxis (Jan1 2021) (Jan1 2023) 720) = Year
      \<and> x_domain (renderXandYAxis (Jan1 2021) (Jan1 2023) 720) = (Jan1 2021, Jan1 2023)"
    by (rule mp [OF conjunct1 [OF conjunct2 [OF conjunct2 [OF T]]] t])
  have mo: "x_ticks (renderXandYAxis (Jan1 2021) (Jan1 (2021 + 1)) 720) = Month"
    by (rule conjunct1 [OF conjunct2 [OF conjunct2 [OF conjunct2 [OF T]]]])
  have p: "plain_year 2021 \<and> plain_year (2021 + 1)" by (simp add: plain_year_def)
  have "x_domain (renderXandYAxis (Jan1 2021) (Jan1 (2021 + 1)) 720) =
      (Valid ((DayFromYear 2021 - 31) * msPerDay), Valid ((DayFromYear (2021 + 1) + 31) * msPerDay))"
    by (rule mp [OF conjunct2 [OF conjunct2 [OF conjunct2 [OF conjunct2 [OF T]]]] p])
  then have d: "x_domain (renderXandYAxis (Jan1 2021) (Jan1 (2021 + 1)) 720) =
        (Valid 1606780800000, Valid 1643673600000)"
    by (simp add: DayFromYear_def msPerDay_def)
  show ?thesis using m y span mo d by blast
qed

end
